theory Spec2Isabelle
  imports Complex_Main "HOL-Library.Sublist"
begin

section \<open>OAuth flow for MCP HTTP servers: data model\<close>

text \<open>
  Strings are byte sequences. A header value is read one byte per code unit. Every
  other string is the UTF-8 encoding of its UTF-16 code units, extended to unpaired
  surrogates: the code unit U+D800 to U+DFFF that is not part of a pair is encoded like
  any other code point of its size, as the three bytes \<open>ED\<close>, \<open>A0\<close> to \<open>BF\<close>, \<open>80\<close> to \<open>BF\<close>.
\<close>

subsection \<open>Thrown values\<close>

text \<open>
  A JavaScript \<open>throw\<close> carries either an \<open>Error\<close> object, of which the handlers read only
  \<open>message\<close>, or some other value (\<open>err instanceof Error\<close> is false).
\<close>

datatype thrown = JsError string | NonError

subsection \<open>lib/mcp/oauth-detection.ts: status constants\<close>

definition OAuthStatus_UNKNOWN :: string where "OAuthStatus_UNKNOWN = ''UNKNOWN''"
definition OAuthStatus_NOT_REQUIRED :: string where "OAuthStatus_NOT_REQUIRED = ''NOT_REQUIRED''"
definition OAuthStatus_REQUIRED :: string where "OAuthStatus_REQUIRED = ''REQUIRED''"
definition OAuthStatus_CONNECTED :: string where "OAuthStatus_CONNECTED = ''CONNECTED''"
definition OAuthStatus_EXPIRED :: string where "OAuthStatus_EXPIRED = ''EXPIRED''"

text \<open>The union type \<open>OAuthStatus\<close>: the values of the constant object.\<close>

definition OAuthStatus_values :: "string set" where
  "OAuthStatus_values = {OAuthStatus_UNKNOWN, OAuthStatus_NOT_REQUIRED, OAuthStatus_REQUIRED,
     OAuthStatus_CONNECTED, OAuthStatus_EXPIRED}"

subsection \<open>The stored record (model MCPServer) and the JSON values it holds\<close>

text \<open>
  \<open>authTokens\<close> is read by the check route only through \<open>expires_at\<close>; \<open>!tokens.expires_at\<close>
  is true for an absent field and for the number 0. Epoch seconds are integers.
\<close>

record OAuthTokens =
  access_token :: string
  expires_at :: "int option"

record OAuthClientInformation =
  client_id :: string
  client_secret :: "string option"

text \<open>The record is keyed by its id in the store, so the id is not a field here.\<close>

record MCPServer =
  name :: string
  type :: string
  url :: "string option"
  requiresAuth :: "bool option"
  authTokens :: "OAuthTokens option"
  clientInfo :: "OAuthClientInformation option"
  codeVerifier :: "string option"
  oauthStatus :: "string option"

text \<open>JavaScript truthiness of a nullable string: neither null nor empty.\<close>

definition truthy :: "string option \<Rightarrow> bool" where
  "truthy s = (case s of None \<Rightarrow> False | Some v \<Rightarrow> v \<noteq> [])"

subsection \<open>String primitives of the platform\<close>

text \<open>\<open>String.prototype.toLowerCase\<close> on one-byte code units (ASCII and Latin-1 capitals).\<close>

definition toLowerCase_unit :: "char \<Rightarrow> char" where
  "toLowerCase_unit c =
     (let n = (of_char c :: nat)
      in if (65 \<le> n \<and> n \<le> 90) \<or> (192 \<le> n \<and> n \<le> 222 \<and> n \<noteq> 215)
         then char_of (n + 32) else c)"

definition toLowerCase :: "string \<Rightarrow> string" where
  "toLowerCase s = map toLowerCase_unit s"

text \<open>\<open>s.includes(t)\<close>: \<open>t\<close> occurs in \<open>s\<close> as a contiguous substring.\<close>

fun includes_str :: "string \<Rightarrow> string \<Rightarrow> bool" where
  "includes_str [] t = (t = [])"
| "includes_str (c # cs) t = (prefix t (c # cs) \<or> includes_str cs t)"

definition dquote :: char where "dquote = CHR 0x22"

text \<open>
  \<open>h.match(/KEY="([^"]+)"/)\<close>, returning capture group 1 of the leftmost match. At a
  start position where \<open>KEY="\<close> matches, the greedy class takes the whole run of
  non-quote characters; the match succeeds there exactly when that run is non-empty and
  a quote follows it (a shorter run is followed by a non-quote, so backtracking cannot
  help). Otherwise the search moves one position to the right. The first argument is
  the literal \<open>KEY="\<close>.
\<close>

fun match_quoted :: "string \<Rightarrow> string \<Rightarrow> string option" where
  "match_quoted lit [] = None"
| "match_quoted lit (c # cs) =
     (if prefix lit (c # cs) then
        (let rest = drop (length lit) (c # cs);
             grp = takeWhile (\<lambda>x. x \<noteq> dquote) rest;
             after = dropWhile (\<lambda>x. x \<noteq> dquote) rest
         in if grp \<noteq> [] \<and> after \<noteq> [] then Some grp else match_quoted lit cs)
      else match_quoted lit cs)"

text \<open>
  An unpaired surrogate in a string. \<open>ED\<close> is a lead byte only, and in the encoding of a
  character other than a surrogate it is followed by a byte from \<open>80\<close> to \<open>9F\<close>.
\<close>

fun lone_surrogate :: "string \<Rightarrow> bool" where
  "lone_surrogate (c # d # cs) =
     (((of_char c :: nat) = 237 \<and> 160 \<le> (of_char d :: nat) \<and> (of_char d :: nat) \<le> 191) \<or>
      lone_surrogate (d # cs))"
| "lone_surrogate _ = False"

text \<open>
  \<open>encodeURIComponent\<close> throws a \<open>URIError\<close> on a string with an unpaired surrogate.
  On any other string every byte outside \<open>A-Z a-z 0-9 - _ . ! ~ * ' ( )\<close> becomes \<open>%XX\<close>.
\<close>

definition uri_unreserved :: "char \<Rightarrow> bool" where
  "uri_unreserved c =
     (let n = (of_char c :: nat)
      in (65 \<le> n \<and> n \<le> 90) \<or> (97 \<le> n \<and> n \<le> 122) \<or> (48 \<le> n \<and> n \<le> 57)
         \<or> n \<in> {45, 95, 46, 33, 126, 42, 39, 40, 41})"

definition hex_digit :: "nat \<Rightarrow> char" where
  "hex_digit d = (if d < 10 then char_of (48 + d) else char_of (55 + d))"

definition encode_unit :: "char \<Rightarrow> string" where
  "encode_unit c =
     (if uri_unreserved c then [c]
      else (let n = (of_char c :: nat) in [CHR ''%'', hex_digit (n div 16), hex_digit (n mod 16)]))"

definition percent_encode :: "string \<Rightarrow> string" where
  "percent_encode s = concat (map encode_unit s)"

definition URIError :: thrown where
  "URIError = JsError ''URI malformed''"

definition encodeURIComponent :: "string \<Rightarrow> thrown + string" where
  "encodeURIComponent s = (if lone_surrogate s then Inl URIError else Inr (percent_encode s))"

subsection \<open>lib/config/app-url.ts\<close>

record process_env =
  NEXT_PUBLIC_APP_URL :: "string option"
  NODE_ENV :: "string option"

definition misconfiguration_message :: string where
  "misconfiguration_message =
     ''NEXT_PUBLIC_APP_URL environment variable is required in production. '' @
     ''Set it to your application's public URL (e.g., https://myapp.com)''"

text \<open>\<open>appUrl.replace(/\/$/, "")\<close> drops one trailing slash.\<close>

definition getAppUrl :: "process_env \<Rightarrow> thrown + string" where
  "getAppUrl pe =
     (if truthy (NEXT_PUBLIC_APP_URL pe) then
        (let appUrl = the (NEXT_PUBLIC_APP_URL pe)
         in Inr (if last appUrl = CHR ''/'' then butlast appUrl else appUrl))
      else if NODE_ENV pe = Some ''development'' then Inr ''http://localhost:3000''
      else Inl (JsError misconfiguration_message))"

subsection \<open>lib/mcp/oauth-detection.ts: isTokenExpired\<close>

text \<open>
  \<open>Date.now()\<close> is an integer number of milliseconds; the division and the comparison
  are exact on integers of this size, so they are taken over the rationals.
\<close>

definition isTokenExpired :: "int \<Rightarrow> OAuthTokens option \<Rightarrow> bool" where
  "isTokenExpired Date_now tks =
     (case tks of
        None \<Rightarrow> False
      | Some t \<Rightarrow>
          (case expires_at t of
             None \<Rightarrow> False
           | Some e \<Rightarrow>
               if e = 0 then False
               else (of_int Date_now :: rat) / 1000 > of_int e - 60))"

section \<open>Effects: the store, the outbound calls, exceptions\<close>

text \<open>
  A handler runs against a world: the stored records, keyed by server id, and the trace
  of the store updates and outbound calls made so far. A computation returns a value or
  a thrown value, together with the new world.
\<close>

datatype field_update =
    Set_oauthStatus string
  | Set_requiresAuth bool
  | Set_codeVerifier "string option"
  | Set_clientInfo OAuthClientInformation
  | Set_authTokens OAuthTokens

fun apply_field :: "field_update \<Rightarrow> MCPServer \<Rightarrow> MCPServer" where
  "apply_field (Set_oauthStatus s) r = r\<lparr>oauthStatus := Some s\<rparr>"
| "apply_field (Set_requiresAuth b) r = r\<lparr>requiresAuth := Some b\<rparr>"
| "apply_field (Set_codeVerifier v) r = r\<lparr>codeVerifier := v\<rparr>"
| "apply_field (Set_clientInfo c) r = r\<lparr>clientInfo := Some c\<rparr>"
| "apply_field (Set_authTokens t) r = r\<lparr>authTokens := Some t\<rparr>"

datatype event =
    Fetch string
  | DiscoverProtectedResource string "string option"
  | DiscoverAuthorizationServer string
  | RegisterClient string
  | StartAuthorization string OAuthClientInformation
  | FinishAuth string
  | Update string "field_update list"

text \<open>The calls that leave the process: probe, metadata fetches, registration, token exchange.\<close>

fun is_network :: "event \<Rightarrow> bool" where
  "is_network (StartAuthorization _ _) = False"
| "is_network (Update _ _) = False"
| "is_network _ = True"

record world =
  store :: "string \<rightharpoonup> MCPServer"
  trace :: "event list"

type_synonym 'a io = "world \<Rightarrow> (thrown + 'a) \<times> world"

definition io_return :: "'a \<Rightarrow> 'a io" where
  "io_return x w = (Inr x, w)"

definition io_throw :: "thrown \<Rightarrow> 'a io" where
  "io_throw e w = (Inl e, w)"

text \<open>Sequencing (\<open>await\<close>): a thrown value skips the rest.\<close>

definition io_bind :: "'a io \<Rightarrow> ('a \<Rightarrow> 'b io) \<Rightarrow> 'b io" where
  "io_bind m f w = (case m w of (Inl e, w') \<Rightarrow> (Inl e, w') | (Inr x, w') \<Rightarrow> f x w')"

text \<open>\<open>try { m } catch (e) { h e }\<close>: the effects of \<open>m\<close> up to the throw are kept.\<close>

definition io_try :: "'a io \<Rightarrow> (thrown \<Rightarrow> 'a io) \<Rightarrow> 'a io" where
  "io_try m h w = (case m w of (Inl e, w') \<Rightarrow> h e w' | (Inr x, w') \<Rightarrow> (Inr x, w'))"

text \<open>A pure computation that may throw, such as a getter.\<close>

definition io_lift :: "thrown + 'a \<Rightarrow> 'a io" where
  "io_lift r w = (r, w)"

definition io_log :: "event \<Rightarrow> unit io" where
  "io_log ev w = (Inr (), w\<lparr>trace := trace w @ [ev]\<rparr>)"

subsection \<open>The store (Prisma client)\<close>

definition findUnique :: "string \<Rightarrow> MCPServer option io" where
  "findUnique sid w = (Inr (store w sid), w)"

text \<open>\<open>findFirst({ where: { id, type: "http", url: { not: null } } })\<close>.\<close>

definition findFirst_http :: "string \<Rightarrow> MCPServer option io" where
  "findFirst_http sid w =
     (Inr (case store w sid of
             None \<Rightarrow> None
           | Some r \<Rightarrow> if type r = ''http'' \<and> url r \<noteq> None then Some r else None), w)"

text \<open>
  \<open>update({ where: { id }, data })\<close> rejects when no record has the id (the text of
  Prisma's message is not modelled beyond its last sentence). These three definitions
  are the operations on a database that answers; a call that the database may reject is
  \<open>store_call\<close> below. The callback route is modelled with such calls; the check route
  and the provider are modelled on a database that answers.
\<close>

definition RecordNotFound :: thrown where
  "RecordNotFound = JsError ''Record to update not found.''"

definition update :: "string \<Rightarrow> field_update list \<Rightarrow> unit io" where
  "update sid data w =
     (case store w sid of
        None \<Rightarrow> (Inl RecordNotFound, w)
      | Some r \<Rightarrow>
          (Inr (), w\<lparr>store := (store w)(sid \<mapsto> fold apply_field data r),
                       trace := trace w @ [Update sid data]\<rparr>))"

text \<open>
  A call that the database may also reject (connection lost, timeout), with the given
  error and before anything is read or written.
\<close>

definition store_call :: "thrown option \<Rightarrow> 'a io \<Rightarrow> 'a io" where
  "store_call rejection m = (case rejection of Some e \<Rightarrow> io_throw e | None \<Rightarrow> m)"

subsection \<open>lib/mcp/oauth-detection.ts: updateServerOAuthStatus\<close>

definition updateServerOAuthStatus :: "string \<Rightarrow> string \<Rightarrow> unit io" where
  "updateServerOAuthStatus sid status = update sid [Set_oauthStatus status]"

section \<open>The provider class (lib/mcp/oauth-provider.ts)\<close>

record ServerOAuthProvider =
  serverId :: string
  serverName :: string

record OAuthClientMetadata =
  client_name :: string
  client_uri :: string
  redirect_uris :: "string list"
  grant_types :: "string list"
  response_types :: "string list"
  scope :: string
  token_endpoint_auth_method :: string

definition provider_redirectUrl :: "process_env \<Rightarrow> ServerOAuthProvider \<Rightarrow> thrown + string" where
  "provider_redirectUrl pe p =
     (case getAppUrl pe of
        Inl e \<Rightarrow> Inl e
      | Inr appUrl \<Rightarrow> Inr (appUrl @ ''/api/oauth/callback/'' @ serverId p))"

definition provider_clientMetadata ::
  "process_env \<Rightarrow> ServerOAuthProvider \<Rightarrow> thrown + OAuthClientMetadata" where
  "provider_clientMetadata pe p =
     (case getAppUrl pe of
        Inl e \<Rightarrow> Inl e
      | Inr appUrl \<Rightarrow>
          (case provider_redirectUrl pe p of
             Inl e \<Rightarrow> Inl e
           | Inr ru \<Rightarrow>
               Inr \<lparr>client_name = ''LangGraph Agent - '' @ serverName p,
                     client_uri = appUrl,
                     redirect_uris = [ru],
                     grant_types = [''authorization_code'', ''refresh_token''],
                     response_types = [''code''],
                     scope = ''read write'',
                     token_endpoint_auth_method = ''none''\<rparr>))"

definition provider_clientInformation :: "ServerOAuthProvider \<Rightarrow> OAuthClientInformation option io" where
  "provider_clientInformation p =
     io_bind (findUnique (serverId p)) (\<lambda>server.
       io_return (case server of None \<Rightarrow> None | Some r \<Rightarrow> clientInfo r))"

definition provider_saveClientInformation :: "ServerOAuthProvider \<Rightarrow> OAuthClientInformation \<Rightarrow> unit io" where
  "provider_saveClientInformation p info = update (serverId p) [Set_clientInfo info]"

definition provider_tokens :: "ServerOAuthProvider \<Rightarrow> OAuthTokens option io" where
  "provider_tokens p =
     io_bind (findUnique (serverId p)) (\<lambda>server.
       io_return (case server of None \<Rightarrow> None | Some r \<Rightarrow> authTokens r))"

definition provider_saveTokens :: "ServerOAuthProvider \<Rightarrow> OAuthTokens \<Rightarrow> unit io" where
  "provider_saveTokens p tks =
     update (serverId p) [Set_authTokens tks, Set_oauthStatus OAuthStatus_CONNECTED]"

definition provider_redirectToAuthorization :: "ServerOAuthProvider \<Rightarrow> string \<Rightarrow> unit io" where
  "provider_redirectToAuthorization p u = io_throw (JsError (''REDIRECT_REQUIRED:'' @ u))"

definition provider_saveCodeVerifier :: "ServerOAuthProvider \<Rightarrow> string \<Rightarrow> unit io" where
  "provider_saveCodeVerifier p verifier = update (serverId p) [Set_codeVerifier (Some verifier)]"

definition provider_codeVerifier :: "ServerOAuthProvider \<Rightarrow> string io" where
  "provider_codeVerifier p =
     io_bind (findUnique (serverId p)) (\<lambda>server.
       case server of
         None \<Rightarrow> io_throw (JsError ''No code verifier stored'')
       | Some r \<Rightarrow>
           (case codeVerifier r of
              None \<Rightarrow> io_throw (JsError ''No code verifier stored'')
            | Some v \<Rightarrow>
                if v = [] then io_throw (JsError ''No code verifier stored'') else io_return v))"

section \<open>The SDK and the platform, as parameters\<close>

text \<open>
  \<open>transport.finishAuth(code)\<close> is code of the MCP SDK. It is handed the provider and
  nothing else of this application, so whatever it does to the store it does by calling
  provider members. A run of it is therefore a tree: it resolves, rejects, or calls one
  member and continues according to what the member returned or threw.
\<close>

datatype sdk_prog =
    Resolve
  | Reject thrown
  | Call_clientInformation "OAuthClientInformation option \<Rightarrow> sdk_prog"
  | Call_saveClientInformation OAuthClientInformation "thrown + unit \<Rightarrow> sdk_prog"
  | Call_tokens "OAuthTokens option \<Rightarrow> sdk_prog"
  | Call_saveTokens OAuthTokens "thrown + unit \<Rightarrow> sdk_prog"
  | Call_redirectToAuthorization string "thrown + unit \<Rightarrow> sdk_prog"
  | Call_saveCodeVerifier string "thrown + unit \<Rightarrow> sdk_prog"
  | Call_codeVerifier "thrown + string \<Rightarrow> sdk_prog"
  | Call_redirectUrl "thrown + string \<Rightarrow> sdk_prog"
  | Call_clientMetadata "thrown + OAuthClientMetadata \<Rightarrow> sdk_prog"

text \<open>The outcome of a member call, handed to the SDK's continuation; it never throws itself.\<close>

definition io_outcome :: "'a io \<Rightarrow> (thrown + 'a) io" where
  "io_outcome m w = (case m w of (r, w') \<Rightarrow> (Inr r, w'))"

primrec run_sdk :: "process_env \<Rightarrow> ServerOAuthProvider \<Rightarrow> sdk_prog \<Rightarrow> unit io" where
  "run_sdk pe p Resolve = io_return ()"
| "run_sdk pe p (Reject e) = io_throw e"
| "run_sdk pe p (Call_clientInformation k) =
     io_bind (provider_clientInformation p) (\<lambda>r. run_sdk pe p (k r))"
| "run_sdk pe p (Call_saveClientInformation info k) =
     io_bind (io_outcome (provider_saveClientInformation p info)) (\<lambda>r. run_sdk pe p (k r))"
| "run_sdk pe p (Call_tokens k) =
     io_bind (provider_tokens p) (\<lambda>r. run_sdk pe p (k r))"
| "run_sdk pe p (Call_saveTokens tks k) =
     io_bind (io_outcome (provider_saveTokens p tks)) (\<lambda>r. run_sdk pe p (k r))"
| "run_sdk pe p (Call_redirectToAuthorization u k) =
     io_bind (io_outcome (provider_redirectToAuthorization p u)) (\<lambda>r. run_sdk pe p (k r))"
| "run_sdk pe p (Call_saveCodeVerifier v k) =
     io_bind (io_outcome (provider_saveCodeVerifier p v)) (\<lambda>r. run_sdk pe p (k r))"
| "run_sdk pe p (Call_codeVerifier k) =
     io_bind (io_outcome (provider_codeVerifier p)) (\<lambda>r. run_sdk pe p (k r))"
| "run_sdk pe p (Call_redirectUrl k) = run_sdk pe p (k (provider_redirectUrl pe p))"
| "run_sdk pe p (Call_clientMetadata k) = run_sdk pe p (k (provider_clientMetadata pe p))"

text \<open>What the probe \<open>fetch(url)\<close> yields: a response, or a rejection (timeout, DNS, refused).\<close>

record response =
  status :: nat
  WWW_Authenticate :: "string option"

datatype fetch_outcome = Responded response | Rejected thrown

record resource_metadata =
  authorization_servers :: "string list option"

record as_metadata =
  issuer :: string
  authorization_endpoint :: string
  token_endpoint :: string
  registration_endpoint :: "string option"

text \<open>
  Everything outside the repository that a handler consults: the process environment,
  the clock, the answers of the network to the SDK's functions (each returns or
  throws), whether the platform's URL parser accepts a string, and the run of
  \<open>finishAuth\<close> for a server URL and an authorization code.
\<close>

record externals =
  process_env :: process_env
  Date_now :: int
  fetch_outcome :: "string \<Rightarrow> fetch_outcome"
  URL_valid :: "string \<Rightarrow> bool"
  resource_metadata_outcome :: "string \<Rightarrow> string option \<Rightarrow> thrown + resource_metadata option"
  as_metadata_outcome :: "string \<Rightarrow> thrown + as_metadata option"
  registerClient_outcome ::
    "string \<Rightarrow> as_metadata \<Rightarrow> OAuthClientMetadata \<Rightarrow> thrown + OAuthClientInformation"
  startAuthorization_outcome ::
    "string \<Rightarrow> as_metadata \<Rightarrow> OAuthClientInformation \<Rightarrow> string \<Rightarrow> thrown + string \<times> string"
  finishAuth_run :: "string \<Rightarrow> string \<Rightarrow> sdk_prog"

definition fetch :: "externals \<Rightarrow> string \<Rightarrow> response io" where
  "fetch ex u =
     io_bind (io_log (Fetch u)) (\<lambda>_.
       io_lift (case fetch_outcome ex u of Rejected e \<Rightarrow> Inl e | Responded r \<Rightarrow> Inr r))"

text \<open>\<open>new URL(s)\<close> throws a \<open>TypeError\<close> on a string the parser rejects.\<close>

definition new_URL :: "externals \<Rightarrow> string \<Rightarrow> string io" where
  "new_URL ex s = (if URL_valid ex s then io_return s else io_throw (JsError ''Invalid URL''))"

definition discoverOAuthProtectedResourceMetadata ::
  "externals \<Rightarrow> string \<Rightarrow> string option \<Rightarrow> resource_metadata option io" where
  "discoverOAuthProtectedResourceMetadata ex u hint =
     io_bind (io_log (DiscoverProtectedResource u hint)) (\<lambda>_.
       io_lift (resource_metadata_outcome ex u hint))"

definition discoverAuthorizationServerMetadata :: "externals \<Rightarrow> string \<Rightarrow> as_metadata option io" where
  "discoverAuthorizationServerMetadata ex u =
     io_bind (io_log (DiscoverAuthorizationServer u)) (\<lambda>_. io_lift (as_metadata_outcome ex u))"

definition registerClient ::
  "externals \<Rightarrow> string \<Rightarrow> as_metadata \<Rightarrow> OAuthClientMetadata \<Rightarrow> OAuthClientInformation io" where
  "registerClient ex u md cm =
     io_bind (io_log (RegisterClient u)) (\<lambda>_. io_lift (registerClient_outcome ex u md cm))"

definition startAuthorization ::
  "externals \<Rightarrow> string \<Rightarrow> as_metadata \<Rightarrow> OAuthClientInformation \<Rightarrow> string \<Rightarrow> (string \<times> string) io" where
  "startAuthorization ex u md ci ru =
     io_bind (io_log (StartAuthorization u ci)) (\<lambda>_. io_lift (startAuthorization_outcome ex u md ci ru))"

definition transport_finishAuth ::
  "externals \<Rightarrow> ServerOAuthProvider \<Rightarrow> string \<Rightarrow> string \<Rightarrow> unit io" where
  "transport_finishAuth ex p u code =
     io_bind (io_log (FinishAuth code)) (\<lambda>_.
       run_sdk (process_env ex) p (finishAuth_run ex u code))"

section \<open>Requirement detection (lib/mcp/oauth-detection.ts)\<close>

record OAuthDetectionResult =
  d_requiresAuth :: bool
  d_resourceMetadataUrl :: "string option"
  d_error :: "string option"

definition extractResourceMetadataUrl :: "string \<Rightarrow> string option" where
  "extractResourceMetadataUrl wwwAuthHeader =
     (case match_quoted (''resource_metadata='' @ [dquote]) wwwAuthHeader of
        Some m \<Rightarrow> Some m
      | None \<Rightarrow> match_quoted (''realm='' @ [dquote]) wwwAuthHeader)"

definition detectOAuthRequirement :: "externals \<Rightarrow> string \<Rightarrow> OAuthDetectionResult io" where
  "detectOAuthRequirement ex u =
     io_try
       (io_bind (fetch ex u) (\<lambda>response.
          if status response = 401 then
            (case WWW_Authenticate response of
               None \<Rightarrow>
                 io_return \<lparr>d_requiresAuth = True, d_resourceMetadataUrl = None, d_error = None\<rparr>
             | Some wwwAuth \<Rightarrow>
                 if wwwAuth \<noteq> [] \<and> includes_str (toLowerCase wwwAuth) ''bearer'' then
                   io_return \<lparr>d_requiresAuth = True,
                               d_resourceMetadataUrl = extractResourceMetadataUrl wwwAuth,
                               d_error = None\<rparr>
                 else
                   io_return \<lparr>d_requiresAuth = True, d_resourceMetadataUrl = None, d_error = None\<rparr>)
          else
            io_return \<lparr>d_requiresAuth = False, d_resourceMetadataUrl = None, d_error = None\<rparr>))
       (\<lambda>error.
          io_return \<lparr>d_requiresAuth = False, d_resourceMetadataUrl = None,
                      d_error = Some (case error of JsError m \<Rightarrow> m | NonError \<Rightarrow> ''Unknown error'')\<rparr>)"

section \<open>GET /api/oauth/check/[serverId]\<close>

record CheckOAuthResponse =
  r_serverId :: string
  r_requiresAuth :: bool
  r_connected :: bool
  r_oauthStatus :: string
  r_authorizationUrl :: "string option"
  r_error :: "string option"

text \<open>\<open>NextResponse.json(body, { status })\<close>; the status is 200 when none is given.\<close>

record json_response =
  http_status :: nat
  body :: CheckOAuthResponse

definition required_response :: "string \<Rightarrow> string option \<Rightarrow> string option \<Rightarrow> json_response" where
  "required_response sid authUrl err =
     \<lparr>http_status = 200,
      body = \<lparr>r_serverId = sid, r_requiresAuth = True, r_connected = False,
               r_oauthStatus = OAuthStatus_REQUIRED, r_authorizationUrl = authUrl, r_error = err\<rparr>\<rparr>"

text \<open>The error texts of the route, named.\<close>

definition msg_no_authorization_server :: string where
  "msg_no_authorization_server = ''Could not find authorization server in resource metadata''"

definition msg_no_metadata :: string where
  "msg_no_metadata = ''Could not discover authorization server metadata''"

definition msg_no_registration :: string where
  "msg_no_registration = ''Server does not support dynamic client registration''"

definition msg_generic_failure :: string where
  "msg_generic_failure = ''Failed to generate authorization URL''"

definition msg_not_found :: string where
  "msg_not_found = ''HTTP server not found''"

text \<open>Lines 158 to 174: start the authorization, save the verifier, answer with the URL.\<close>

definition check_start ::
  "externals \<Rightarrow> string \<Rightarrow> ServerOAuthProvider \<Rightarrow> string \<Rightarrow> as_metadata \<Rightarrow>
   OAuthClientInformation \<Rightarrow> json_response io" where
  "check_start ex sid authProvider authServerUrl metadata info =
     io_bind (io_lift (provider_redirectUrl (process_env ex) authProvider)) (\<lambda>redirectUrl.
     io_bind (startAuthorization ex authServerUrl metadata info redirectUrl) (\<lambda>(authorizationUrl, verifier).
     io_bind (provider_saveCodeVerifier authProvider verifier) (\<lambda>_.
       io_return (required_response sid (Some authorizationUrl) None))))"

text \<open>Lines 135 to 174: the cached client, or a dynamic registration, then the start.\<close>

definition check_client ::
  "externals \<Rightarrow> string \<Rightarrow> ServerOAuthProvider \<Rightarrow> string \<Rightarrow> as_metadata \<Rightarrow> json_response io" where
  "check_client ex sid authProvider authServerUrl metadata =
     io_bind (provider_clientInformation authProvider) (\<lambda>info.
       case info of
         Some ci \<Rightarrow> check_start ex sid authProvider authServerUrl metadata ci
       | None \<Rightarrow>
           if truthy (registration_endpoint metadata) then
             io_bind (io_lift (provider_clientMetadata (process_env ex) authProvider)) (\<lambda>cm.
             io_bind (registerClient ex authServerUrl metadata cm) (\<lambda>ci.
             io_bind (provider_saveClientInformation authProvider ci) (\<lambda>_.
               check_start ex sid authProvider authServerUrl metadata ci)))
           else
             io_return (required_response sid None (Some msg_no_registration)))"

text \<open>Lines 101 to 174: the body of the \<open>try\<close>.\<close>

definition check_authorize ::
  "externals \<Rightarrow> string \<Rightarrow> string \<Rightarrow> OAuthDetectionResult \<Rightarrow> ServerOAuthProvider \<Rightarrow>
   json_response io" where
  "check_authorize ex sid serverUrl detection authProvider =
     io_bind (new_URL ex serverUrl) (\<lambda>serverUrlObj.
     io_bind (discoverOAuthProtectedResourceMetadata ex serverUrlObj
                (if truthy (d_resourceMetadataUrl detection)
                 then d_resourceMetadataUrl detection else None)) (\<lambda>resourceMetadata.
       case (case resourceMetadata of None \<Rightarrow> None | Some rm \<Rightarrow> authorization_servers rm) of
         None \<Rightarrow> io_return (required_response sid None (Some msg_no_authorization_server))
       | Some [] \<Rightarrow> io_return (required_response sid None (Some msg_no_authorization_server))
       | Some (authServerUrl # _) \<Rightarrow>
           io_bind (discoverAuthorizationServerMetadata ex authServerUrl) (\<lambda>md.
             case md of
               None \<Rightarrow> io_return (required_response sid None (Some msg_no_metadata))
             | Some metadata \<Rightarrow> check_client ex sid authProvider authServerUrl metadata)))"

text \<open>Lines 81 to 184: detection, then the \<open>try\<close> with its \<open>catch\<close>.\<close>

definition check_detect :: "externals \<Rightarrow> string \<Rightarrow> MCPServer \<Rightarrow> json_response io" where
  "check_detect ex sid server =
     (let serverUrl = the (url server) in
      io_bind (detectOAuthRequirement ex serverUrl) (\<lambda>detection.
        if \<not> d_requiresAuth detection then
          io_bind (updateServerOAuthStatus sid OAuthStatus_NOT_REQUIRED) (\<lambda>_.
            io_return
              \<lparr>http_status = 200,
               body = \<lparr>r_serverId = sid, r_requiresAuth = False, r_connected = False,
                        r_oauthStatus = OAuthStatus_NOT_REQUIRED,
                        r_authorizationUrl = None, r_error = None\<rparr>\<rparr>)
        else
          io_bind (updateServerOAuthStatus sid OAuthStatus_REQUIRED) (\<lambda>_.
            (let authProvider = \<lparr>serverId = sid, serverName = name server\<rparr> in
             io_try (check_authorize ex sid serverUrl detection authProvider)
               (\<lambda>error.
                  io_return (required_response sid None
                    (Some (case error of
                             JsError m \<Rightarrow> m
                           | NonError \<Rightarrow> msg_generic_failure))))))))"

definition check_GET :: "externals \<Rightarrow> string \<Rightarrow> json_response io" where
  "check_GET ex sid =
     io_bind (findFirst_http sid) (\<lambda>found.
       case found of
         None \<Rightarrow>
           io_return
             \<lparr>http_status = 404,
              body = \<lparr>r_serverId = sid, r_requiresAuth = False, r_connected = False,
                       r_oauthStatus = OAuthStatus_NOT_REQUIRED,
                       r_authorizationUrl = None, r_error = Some msg_not_found\<rparr>\<rparr>
       | Some server \<Rightarrow>
           if oauthStatus server = Some OAuthStatus_CONNECTED \<and> authTokens server \<noteq> None then
             if \<not> isTokenExpired (Date_now ex) (authTokens server) then
               io_return
                 \<lparr>http_status = 200,
                  body = \<lparr>r_serverId = sid, r_requiresAuth = True, r_connected = True,
                           r_oauthStatus = OAuthStatus_CONNECTED,
                           r_authorizationUrl = None, r_error = None\<rparr>\<rparr>
             else
               io_bind (updateServerOAuthStatus sid OAuthStatus_EXPIRED) (\<lambda>_.
                 check_detect ex sid server)
           else check_detect ex sid server)"

section \<open>GET /api/oauth/callback/[serverId]\<close>

record callback_query =
  q_code :: "string option"
  q_error :: "string option"
  q_error_description :: "string option"

text \<open>
  \<open>NextResponse.redirect(new URL(target, appUrl))\<close>, kept as the two arguments of the
  constructor: the reference and the base it is resolved against. The constructor throws
  when the base does not parse.
\<close>

datatype redirect = Redirect string string

definition redirect_to :: "externals \<Rightarrow> string \<Rightarrow> string \<Rightarrow> redirect io" where
  "redirect_to ex target appUrl =
     (if URL_valid ex appUrl then io_return (Redirect target appUrl)
      else io_throw (JsError ''Invalid URL''))"

text \<open>
  What the database does to the three calls that the route makes itself: the lookup
  (line 42), the write after the exchange (line 62), the write in the \<open>catch\<close> block
  (line 79). Each is answered (\<open>None\<close>) or rejected with an error. The calls
  of the provider are made by \<open>finishAuth\<close>, inside the \<open>try\<close>: a member call that the
  database rejects is, for the route, a run of \<open>finishAuth\<close> that does not change the
  store at that point and goes on as the SDK does after the error, which is again a run
  of the tree.
\<close>

record database =
  findUnique_rejects :: "thrown option"
  update_connected_rejects :: "thrown option"
  update_required_rejects :: "thrown option"

definition callback_GET_on ::
  "database \<Rightarrow> externals \<Rightarrow> string \<Rightarrow> callback_query \<Rightarrow> redirect io" where
  "callback_GET_on db ex sid q =
     io_bind (io_lift (getAppUrl (process_env ex))) (\<lambda>appUrl.
       if truthy (q_error q) then
         io_bind (io_lift (encodeURIComponent
                    (if truthy (q_error_description q) then the (q_error_description q)
                     else the (q_error q)))) (\<lambda>reason.
           redirect_to ex (''/?oauth_error='' @ reason) appUrl)
       else if \<not> truthy (q_code q) then redirect_to ex ''/?oauth_error=missing_code'' appUrl
       else
         io_bind (store_call (findUnique_rejects db) (findUnique sid)) (\<lambda>found.
           case found of
             None \<Rightarrow> redirect_to ex ''/?oauth_error=server_not_found'' appUrl
           | Some server \<Rightarrow>
               if \<not> truthy (url server) then
                 redirect_to ex ''/?oauth_error=server_not_found'' appUrl
               else
                 (let authProvider = \<lparr>serverId = sid, serverName = name server\<rparr> in
                  io_try
                    (io_bind (new_URL ex (the (url server))) (\<lambda>serverUrl.
                     io_bind (transport_finishAuth ex authProvider serverUrl (the (q_code q))) (\<lambda>_.
                     io_bind (store_call (update_connected_rejects db)
                                (update sid [Set_oauthStatus OAuthStatus_CONNECTED,
                                             Set_requiresAuth True,
                                             Set_codeVerifier None])) (\<lambda>_.
                     io_bind (io_lift (encodeURIComponent (name server))) (\<lambda>encoded.
                       redirect_to ex (''/?oauth_success=true&server='' @ encoded) appUrl)))))
                    (\<lambda>err.
                       io_bind (store_call (update_required_rejects db)
                                  (update sid [Set_oauthStatus ''REQUIRED''])) (\<lambda>_.
                       io_bind (io_lift (encodeURIComponent
                                  (case err of
                                     JsError m \<Rightarrow> m
                                   | NonError \<Rightarrow> ''Token exchange failed''))) (\<lambda>reason.
                         redirect_to ex (''/?oauth_error='' @ reason) appUrl))))))"

text \<open>The route on a database that answers every call, as the check route is modelled.\<close>

definition reachable :: database where
  "reachable =
     \<lparr>findUnique_rejects = None, update_connected_rejects = None, update_required_rejects = None\<rparr>"

definition callback_GET :: "externals \<Rightarrow> string \<Rightarrow> callback_query \<Rightarrow> redirect io" where
  "callback_GET ex sid q = callback_GET_on reachable ex sid q"

section \<open>The challenge in the words of the specification\<close>




section \<open>Vocabulary of the proofs\<close>

text \<open>
  The rest of the definitions serve the proofs. \<open>wp m Q w\<close>: running \<open>m\<close> in \<open>w\<close> ends in a
  result and a world that satisfy \<open>Q\<close>.
\<close>

definition wp :: "'a io \<Rightarrow> (thrown + 'a \<Rightarrow> world \<Rightarrow> bool) \<Rightarrow> world \<Rightarrow> bool" where
  "wp m Q w = (case m w of (r, w') \<Rightarrow> Q r w')"

text \<open>
  What the regular expression looks for: from position \<open>n\<close> the header reads the literal,
  then \<open>v\<close>, then a quote, where \<open>v\<close> is not empty and has no quote in it. Then: \<open>v\<close> is
  what is found at the leftmost such position; and there is no such position.
\<close>

definition quoted_at :: "string \<Rightarrow> string \<Rightarrow> nat \<Rightarrow> string \<Rightarrow> bool" where
  "quoted_at lit h n v = (v \<noteq> [] \<and> dquote \<notin> set v \<and> prefix (lit @ v @ [dquote]) (drop n h))"



text \<open>The events a run added to the trace, and runs that only add events of one kind.\<close>

definition new_events :: "world \<Rightarrow> world \<Rightarrow> event list" where
  "new_events w w' = drop (length (trace w)) (trace w')"

definition extends :: "(event \<Rightarrow> bool) \<Rightarrow> world \<Rightarrow> world \<Rightarrow> bool" where
  "extends P w w' = (prefix (trace w) (trace w') \<and> list_all P (new_events w w'))"

text \<open>
  What the check route may write and call, given the client that was cached when it
  started: a status other than CONNECTED and UNKNOWN, a client only when none was cached,
  a verifier; a registration only when no client was cached and the base URL is
  available; an authorization only with the cached client, if there was one, and only
  when the base URL is available.
\<close>

fun check_write :: "OAuthClientInformation option \<Rightarrow> field_update list \<Rightarrow> bool" where
  "check_write cached [Set_oauthStatus s] =
     (s \<in> {OAuthStatus_EXPIRED, OAuthStatus_NOT_REQUIRED, OAuthStatus_REQUIRED})"
| "check_write cached [Set_clientInfo _] = (cached = None)"
| "check_write cached [Set_codeVerifier v] = (v \<noteq> None)"
| "check_write cached _ = False"

fun check_event :: "externals \<Rightarrow> string \<Rightarrow> OAuthClientInformation option \<Rightarrow> event \<Rightarrow> bool" where
  "check_event ex sid cached (RegisterClient _) =
     (cached = None \<and> \<not> isl (getAppUrl (process_env ex)))"
| "check_event ex sid cached (StartAuthorization _ ci) =
     ((cached = None \<or> cached = Some ci) \<and> \<not> isl (getAppUrl (process_env ex)))"
| "check_event ex sid cached (FinishAuth _) = False"
| "check_event ex sid cached (Update k data) = (k = sid \<and> check_write cached data)"
| "check_event ex sid cached _ = True"

definition cached_client :: "string \<Rightarrow> world \<Rightarrow> OAuthClientInformation option" where
  "cached_client sid w = (case store w sid of None \<Rightarrow> None | Some r \<Rightarrow> clientInfo r)"

definition stored_tokens :: "string \<Rightarrow> world \<Rightarrow> OAuthTokens option" where
  "stored_tokens sid w = (case store w sid of None \<Rightarrow> None | Some r \<Rightarrow> authTokens r)"

text \<open>Between two versions of a record, the steps after detection change only the client (when none was stored) and the verifier.\<close>

definition same_core :: "MCPServer \<Rightarrow> MCPServer \<Rightarrow> bool" where
  "same_core r r' =
     (name r' = name r \<and> type r' = type r \<and> url r' = url r \<and>
      requiresAuth r' = requiresAuth r \<and> authTokens r' = authTokens r \<and>
      oauthStatus r' = oauthStatus r \<and>
      (clientInfo r \<noteq> None \<longrightarrow> clientInfo r' = clientInfo r))"

definition authorize_rel :: "externals \<Rightarrow> string \<Rightarrow> world \<Rightarrow> world \<Rightarrow> bool" where
  "authorize_rel ex sid w w' =
     ((\<forall>k. k \<noteq> sid \<longrightarrow> store w' k = store w k) \<and>
      (case store w sid of
         None \<Rightarrow> store w' sid = None
       | Some r \<Rightarrow>
           (case store w' sid of
              None \<Rightarrow> False
            | Some r' \<Rightarrow> same_core r r')) \<and>
      extends (check_event ex sid (cached_client sid w)) w w')"

text \<open>A result that, when it is a response, is the REQUIRED response of the route.\<close>

definition required_result :: "string \<Rightarrow> thrown + json_response \<Rightarrow> bool" where
  "required_result sid res =
     (case res of
        Inl _ \<Rightarrow> True
      | Inr resp \<Rightarrow>
          resp = required_response sid (r_authorizationUrl (body resp)) (r_error (body resp)))"

text \<open>The detection result as a function of the probe's outcome (lemma \<open>detect_run\<close>).\<close>

definition classify :: "fetch_outcome \<Rightarrow> OAuthDetectionResult" where
  "classify fo =
     (case fo of
        Rejected e \<Rightarrow>
          \<lparr>d_requiresAuth = False, d_resourceMetadataUrl = None,
           d_error = Some (case e of JsError m \<Rightarrow> m | NonError \<Rightarrow> ''Unknown error'')\<rparr>
      | Responded r \<Rightarrow>
          if status r = 401 then
            (case WWW_Authenticate r of
               None \<Rightarrow> \<lparr>d_requiresAuth = True, d_resourceMetadataUrl = None, d_error = None\<rparr>
             | Some h \<Rightarrow>
                 if h \<noteq> [] \<and> includes_str (toLowerCase h) ''bearer''
                 then \<lparr>d_requiresAuth = True,
                       d_resourceMetadataUrl = extractResourceMetadataUrl h, d_error = None\<rparr>
                 else \<lparr>d_requiresAuth = True, d_resourceMetadataUrl = None, d_error = None\<rparr>)
          else \<lparr>d_requiresAuth = False, d_resourceMetadataUrl = None, d_error = None\<rparr>)"

definition detected_status :: "externals \<Rightarrow> string \<Rightarrow> string" where
  "detected_status ex u =
     (if d_requiresAuth (classify (fetch_outcome ex u))
      then OAuthStatus_REQUIRED else OAuthStatus_NOT_REQUIRED)"

text \<open>The world right after detection and the status write that follows it.\<close>

definition after_detect :: "externals \<Rightarrow> string \<Rightarrow> string \<Rightarrow> MCPServer \<Rightarrow> world \<Rightarrow> world" where
  "after_detect ex sid u r w =
     w\<lparr>store := (store w)(sid \<mapsto> r\<lparr>oauthStatus := Some (detected_status ex u)\<rparr>),
       trace := trace w @ [Fetch u, Update sid [Set_oauthStatus (detected_status ex u)]]\<rparr>"

definition detect_post ::
  "externals \<Rightarrow> string \<Rightarrow> string \<Rightarrow> MCPServer \<Rightarrow> world \<Rightarrow> thrown + json_response \<Rightarrow> world \<Rightarrow> bool" where
  "detect_post ex sid u r w res w' =
     (case res of
        Inl _ \<Rightarrow> False
      | Inr resp \<Rightarrow>
          http_status resp = 200 \<and> r_serverId (body resp) = sid \<and>
          r_oauthStatus (body resp) = detected_status ex u \<and>
          r_requiresAuth (body resp) = d_requiresAuth (classify (fetch_outcome ex u)) \<and>
          \<not> r_connected (body resp) \<and>
          (if d_requiresAuth (classify (fetch_outcome ex u))
           then authorize_rel ex sid (after_detect ex sid u r w) w'
           else w' = after_detect ex sid u r w \<and>
                r_authorizationUrl (body resp) = None \<and> r_error (body resp) = None))"

text \<open>The world right after the EXPIRED write.\<close>

definition expired_world :: "string \<Rightarrow> MCPServer \<Rightarrow> world \<Rightarrow> world" where
  "expired_world sid r w =
     w\<lparr>store := (store w)(sid \<mapsto> r\<lparr>oauthStatus := Some OAuthStatus_EXPIRED\<rparr>),
       trace := trace w @ [Update sid [Set_oauthStatus OAuthStatus_EXPIRED]]\<rparr>"

text \<open>What \<open>findFirst_http\<close> returns, and the two states of a server stored as CONNECTED.\<close>

definition found_http :: "string \<Rightarrow> world \<Rightarrow> MCPServer option" where
  "found_http sid w =
     (case store w sid of
        None \<Rightarrow> None
      | Some r \<Rightarrow> if type r = ''http'' \<and> url r \<noteq> None then Some r else None)"

definition connected_valid :: "externals \<Rightarrow> MCPServer \<Rightarrow> bool" where
  "connected_valid ex r =
     (oauthStatus r = Some OAuthStatus_CONNECTED \<and> authTokens r \<noteq> None \<and>
      \<not> isTokenExpired (Date_now ex) (authTokens r))"

definition connected_expired :: "externals \<Rightarrow> MCPServer \<Rightarrow> bool" where
  "connected_expired ex r =
     (oauthStatus r = Some OAuthStatus_CONNECTED \<and> authTokens r \<noteq> None \<and>
      isTokenExpired (Date_now ex) (authTokens r))"

text \<open>All the ways through the check route.\<close>

definition check_post ::
  "externals \<Rightarrow> string \<Rightarrow> world \<Rightarrow> thrown + json_response \<Rightarrow> world \<Rightarrow> bool" where
  "check_post ex sid w res w' =
     (case found_http sid w of
        None \<Rightarrow>
          w' = w \<and>
          res = Inr \<lparr>http_status = 404,
                      body = \<lparr>r_serverId = sid, r_requiresAuth = False, r_connected = False,
                               r_oauthStatus = OAuthStatus_NOT_REQUIRED,
                               r_authorizationUrl = None, r_error = Some msg_not_found\<rparr>\<rparr>
      | Some r \<Rightarrow>
          if connected_valid ex r then
            w' = w \<and>
            res = Inr \<lparr>http_status = 200,
                        body = \<lparr>r_serverId = sid, r_requiresAuth = True, r_connected = True,
                                 r_oauthStatus = OAuthStatus_CONNECTED,
                                 r_authorizationUrl = None, r_error = None\<rparr>\<rparr>
          else if connected_expired ex r then
            detect_post ex sid (the (url r)) (r\<lparr>oauthStatus := Some OAuthStatus_EXPIRED\<rparr>)
              (expired_world sid r w) res w'
          else detect_post ex sid (the (url r)) r w res w')"

text \<open>What the callback route and the provider members may write.\<close>

fun sdk_write :: "field_update list \<Rightarrow> bool" where
  "sdk_write [Set_clientInfo _] = True"
| "sdk_write [Set_authTokens _, Set_oauthStatus s] = (s = OAuthStatus_CONNECTED)"
| "sdk_write [Set_codeVerifier v] = (v \<noteq> None)"
| "sdk_write _ = False"

fun callback_event :: "string \<Rightarrow> event \<Rightarrow> bool" where
  "callback_event sid (FinishAuth _) = True"
| "callback_event sid (Update k data) =
     (k = sid \<and>
      (sdk_write data \<or>
       data = [Set_oauthStatus OAuthStatus_CONNECTED, Set_requiresAuth True, Set_codeVerifier None] \<or>
       data = [Set_oauthStatus OAuthStatus_REQUIRED]))"
| "callback_event sid _ = False"

text \<open>Neither route changes a record's name, type or URL, nor any other record.\<close>

definition same_identity :: "MCPServer \<Rightarrow> MCPServer \<Rightarrow> bool" where
  "same_identity r r' = (name r' = name r \<and> type r' = type r \<and> url r' = url r)"

definition callback_rel :: "string \<Rightarrow> world \<Rightarrow> world \<Rightarrow> bool" where
  "callback_rel sid w w' =
     ((\<forall>k. k \<noteq> sid \<longrightarrow> store w' k = store w k) \<and>
      (case store w sid of
         None \<Rightarrow> store w' sid = None
       | Some r \<Rightarrow> (case store w' sid of None \<Rightarrow> False | Some r' \<Rightarrow> same_identity r r')) \<and>
      extends (callback_event sid) w w')"

text \<open>The two redirect targets, and the redirect or the thrown \<open>TypeError\<close>.\<close>

definition success_target :: "MCPServer \<Rightarrow> string" where
  "success_target r = ''/?oauth_success=true&server='' @ percent_encode (name r)"

definition error_target :: "string \<Rightarrow> string" where
  "error_target reason = ''/?oauth_error='' @ percent_encode reason"

definition redirect_result :: "externals \<Rightarrow> string \<Rightarrow> string \<Rightarrow> thrown + redirect" where
  "redirect_result ex target base =
     (if URL_valid ex base then Inr (Redirect target base) else Inl (JsError ''Invalid URL''))"

text \<open>The error redirect for a reason that has to be encoded first.\<close>

definition encoded_redirect :: "externals \<Rightarrow> string \<Rightarrow> string \<Rightarrow> thrown + redirect" where
  "encoded_redirect ex reason base =
     (if lone_surrogate reason then Inl URIError
      else redirect_result ex (error_target reason) base)"

text \<open>\<open>err instanceof Error ? err.message : "Token exchange failed"\<close>.\<close>

definition catch_reason :: "thrown \<Rightarrow> string" where
  "catch_reason err = (case err of JsError m \<Rightarrow> m | NonError \<Rightarrow> ''Token exchange failed'')"

text \<open>
  The values that can reach the \<open>catch\<close> block: the \<open>TypeError\<close> of a URL constructor, the
  \<open>URIError\<close> of the server's name, the rejection of the write after the exchange, and
  whatever \<open>finishAuth\<close> rejects with.
\<close>

definition caught ::
  "database \<Rightarrow> externals \<Rightarrow> string \<Rightarrow> callback_query \<Rightarrow> MCPServer \<Rightarrow> world \<Rightarrow> thrown \<Rightarrow> bool" where
  "caught db ex sid q r w err =
     (err = JsError ''Invalid URL'' \<or> err = URIError \<or> update_connected_rejects db = Some err \<or>
      (\<exists>ws. transport_finishAuth ex \<lparr>serverId = sid, serverName = name r\<rparr> (the (url r))
              (the (q_code q)) w = (Inl err, ws)))"

text \<open>All the ways through the callback route.\<close>

definition exchange_post ::
  "database \<Rightarrow> externals \<Rightarrow> string \<Rightarrow> callback_query \<Rightarrow> string \<Rightarrow> MCPServer \<Rightarrow> world \<Rightarrow>
   thrown + redirect \<Rightarrow> world \<Rightarrow> bool" where
  "exchange_post db ex sid q base r w res w' =
     (callback_rel sid w w' \<and>
      (case store w' sid of
         None \<Rightarrow> False
       | Some r' \<Rightarrow>
           if res = Inr (Redirect (success_target r) base) then
             URL_valid ex base \<and> oauthStatus r' = Some OAuthStatus_CONNECTED \<and>
             codeVerifier r' = None \<and> requiresAuth r' = Some True
           else
             (case update_required_rejects db of
                Some e \<Rightarrow> res = Inl e
              | None \<Rightarrow>
                  oauthStatus r' = Some OAuthStatus_REQUIRED \<and>
                  (\<exists>err. caught db ex sid q r w err \<and>
                         res = encoded_redirect ex (catch_reason err) base))))"

definition callback_post ::
  "database \<Rightarrow> externals \<Rightarrow> string \<Rightarrow> callback_query \<Rightarrow> world \<Rightarrow> thrown + redirect \<Rightarrow> world \<Rightarrow>
   bool" where
  "callback_post db ex sid q w res w' =
     (case getAppUrl (process_env ex) of
        Inl e \<Rightarrow> w' = w \<and> res = Inl e
      | Inr base \<Rightarrow>
          if truthy (q_error q) then
            w' = w \<and>
            res = encoded_redirect ex
                    (if truthy (q_error_description q)
                     then the (q_error_description q) else the (q_error q)) base
          else if \<not> truthy (q_code q) then
            w' = w \<and> res = redirect_result ex ''/?oauth_error=missing_code'' base
          else
            (case findUnique_rejects db of
               Some e \<Rightarrow> w' = w \<and> res = Inl e
             | None \<Rightarrow>
                 (case store w sid of
                    None \<Rightarrow> w' = w \<and> res = redirect_result ex ''/?oauth_error=server_not_found'' base
                  | Some r \<Rightarrow>
                      if \<not> truthy (url r) then
                        w' = w \<and> res = redirect_result ex ''/?oauth_error=server_not_found'' base
                      else exchange_post db ex sid q base r w res w')))"

text \<open>The status the check route answers with, as a function of the world it starts in.\<close>

definition check_status :: "externals \<Rightarrow> string \<Rightarrow> world \<Rightarrow> string" where
  "check_status ex sid w =
     (case found_http sid w of
        None \<Rightarrow> OAuthStatus_NOT_REQUIRED
      | Some r \<Rightarrow>
          if connected_valid ex r then OAuthStatus_CONNECTED
          else detected_status ex (the (url r)))"

text \<open>An event that writes no status outside the type, and a store that holds none.\<close>

fun status_write_ok :: "event \<Rightarrow> bool" where
  "status_write_ok (Update k data) =
     (\<forall>fu \<in> set data. case fu of Set_oauthStatus s \<Rightarrow> s \<in> OAuthStatus_values | _ \<Rightarrow> True)"
| "status_write_ok _ = True"

definition statuses_ok :: "world \<Rightarrow> bool" where
  "statuses_ok w =
     (\<forall>k r. store w k = Some r \<longrightarrow> (\<exists>s \<in> OAuthStatus_values. oauthStatus r = Some s))"

section \<open>Example data\<close>

text \<open>
  The authorization-code path of the SDK's \<open>finishAuth\<close>, as one run of the tree: read
  the client, read the verifier, exchange (the token endpoint's answer is the parameter),
  save the tokens.
\<close>

definition sdk_exchange :: "(string \<Rightarrow> thrown + OAuthTokens) \<Rightarrow> sdk_prog" where
  "sdk_exchange exchange =
     Call_clientInformation (\<lambda>info.
       case info of
         None \<Rightarrow> Reject (JsError ''Existing OAuth client information is required'')
       | Some _ \<Rightarrow>
           Call_codeVerifier (\<lambda>v.
             case v of
               Inl e \<Rightarrow> Reject e
             | Inr verifier \<Rightarrow>
                 (case exchange verifier of
                    Inl e \<Rightarrow> Reject e
                  | Inr tks \<Rightarrow>
                      Call_saveTokens tks (\<lambda>r. case r of Inl e \<Rightarrow> Reject e | Inr _ \<Rightarrow> Resolve))))"

definition example_header :: string where
  "example_header = ''Bearer resource_metadata='' @ [dquote] @ ''https://mcp.example/meta'' @ [dquote]"

definition example_metadata :: as_metadata where
  "example_metadata =
     \<lparr>issuer = ''https://as.example'',
      authorization_endpoint = ''https://as.example/authorize'',
      token_endpoint = ''https://as.example/token'',
      registration_endpoint = Some ''https://as.example/register''\<rparr>"

definition example_client :: OAuthClientInformation where
  "example_client = \<lparr>client_id = ''client-1'', client_secret = None\<rparr>"

definition example_tokens :: OAuthTokens where
  "example_tokens = \<lparr>access_token = ''token-1'', expires_at = None\<rparr>"

text \<open>A production deployment whose resource server asks for a Bearer token.\<close>

definition example_externals :: externals where
  "example_externals =
     \<lparr>process_env = \<lparr>NEXT_PUBLIC_APP_URL = Some ''https://app.example'', NODE_ENV = Some ''production''\<rparr>,
      Date_now = 1700000000000,
      fetch_outcome = (\<lambda>u. Responded \<lparr>status = 401, WWW_Authenticate = Some example_header\<rparr>),
      URL_valid = (\<lambda>s. True),
      resource_metadata_outcome =
        (\<lambda>u hint. Inr (Some \<lparr>authorization_servers = Some [''https://as.example'']\<rparr>)),
      as_metadata_outcome = (\<lambda>u. Inr (Some example_metadata)),
      registerClient_outcome = (\<lambda>u md cm. Inr example_client),
      startAuthorization_outcome = (\<lambda>u md ci ru. Inr (''https://as.example/authorize?c=1'', ''verifier-1'')),
      finishAuth_run = (\<lambda>u code. sdk_exchange (\<lambda>v. Inr example_tokens))\<rparr>"

text \<open>The same deployment with the public base URL left unset.\<close>

definition unconfigured_externals :: externals where
  "unconfigured_externals =
     example_externals\<lparr>process_env := \<lparr>NEXT_PUBLIC_APP_URL = None, NODE_ENV = Some ''production''\<rparr>\<rparr>"

text \<open>The same deployment with a resource server that cannot be reached.\<close>

definition unreachable_externals :: externals where
  "unreachable_externals =
     example_externals\<lparr>fetch_outcome := (\<lambda>u. Rejected (JsError ''connect ECONNREFUSED''))\<rparr>"

text \<open>The same deployment with a token endpoint that rejects the code.\<close>

definition rejecting_externals :: externals where
  "rejecting_externals =
     example_externals\<lparr>finishAuth_run := (\<lambda>u code. sdk_exchange (\<lambda>v. Inl (JsError ''invalid_grant'')))\<rparr>"





text \<open>The same deployment after the resource server stopped asking for a token.\<close>

definition open_externals :: externals where
  "open_externals =
     example_externals\<lparr>fetch_outcome := (\<lambda>u. Responded \<lparr>status = 200, WWW_Authenticate = None\<rparr>)\<rparr>"

definition example_server :: MCPServer where
  "example_server =
     \<lparr>name = ''Docs'', type = ''http'', url = Some ''https://mcp.example/mcp'',
      requiresAuth = Some False, authTokens = None, clientInfo = None, codeVerifier = None,
      oauthStatus = Some ''UNKNOWN''\<rparr>"

text \<open>A freshly added server, and the same server while a callback is awaited.\<close>

definition example_world :: world where
  "example_world = \<lparr>store = [''s1'' \<mapsto> example_server], trace = []\<rparr>"

definition pending_world :: world where
  "pending_world =
     \<lparr>store = [''s1'' \<mapsto> example_server\<lparr>clientInfo := Some example_client,
                                          codeVerifier := Some ''verifier-1'',
                                          oauthStatus := Some ''REQUIRED''\<rparr>],
      trace = []\<rparr>"

text \<open>The server connected, with tokens that ran out one second ago.\<close>

definition stale_world :: world where
  "stale_world =
     \<lparr>store = [''s1'' \<mapsto> example_server\<lparr>clientInfo := Some example_client,
                                          authTokens := Some \<lparr>access_token = ''token-0'',
                                                                expires_at = Some 1699999999\<rparr>,
                                          oauthStatus := Some ''CONNECTED''\<rparr>],
      trace = []\<rparr>"

text \<open>
  The server connected, with tokens that run out 90 seconds after the clock of the
  example deployment; and the same deployment one minute later, when the tokens are
  inside the buffer of 60 seconds.
\<close>

definition connected_world :: world where
  "connected_world =
     \<lparr>store = [''s1'' \<mapsto> example_server\<lparr>requiresAuth := Some True,
                                          clientInfo := Some example_client,
                                          authTokens := Some \<lparr>access_token = ''token-1'',
                                                                expires_at = Some 1700000090\<rparr>,
                                          oauthStatus := Some ''CONNECTED''\<rparr>],
      trace = []\<rparr>"

definition later_externals :: externals where
  "later_externals = example_externals\<lparr>Date_now := 1700000060000\<rparr>"



section \<open>Rules for running a computation\<close>

lemma wp_return [simp]: "wp (io_return x) Q w = Q (Inr x) w"
  by (simp add: wp_def io_return_def)

lemma wp_throw [simp]: "wp (io_throw e) Q w = Q (Inl e) w"
  by (simp add: wp_def io_throw_def)

lemma wp_lift [simp]: "wp (io_lift r) Q w = Q r w"
  by (simp add: wp_def io_lift_def)

lemma wp_log [simp]: "wp (io_log ev) Q w = Q (Inr ()) (w\<lparr>trace := trace w @ [ev]\<rparr>)"
  by (simp add: wp_def io_log_def)

lemma wp_bind [simp]:
  "wp (io_bind m f) Q w =
     wp m (\<lambda>r w'. case r of Inl e \<Rightarrow> Q (Inl e) w' | Inr x \<Rightarrow> wp (f x) Q w') w"
  by (simp add: wp_def io_bind_def split: prod.splits sum.splits)

lemma wp_try [simp]:
  "wp (io_try m h) Q w =
     wp m (\<lambda>r w'. case r of Inl e \<Rightarrow> wp (h e) Q w' | Inr x \<Rightarrow> Q (Inr x) w') w"
  by (simp add: wp_def io_try_def split: prod.splits sum.splits)

lemma wp_outcome [simp]: "wp (io_outcome m) Q w = wp m (\<lambda>r w'. Q (Inr r) w') w"
  by (simp add: wp_def io_outcome_def split: prod.splits)

lemma wp_findUnique [simp]: "wp (findUnique sid) Q w = Q (Inr (store w sid)) w"
  by (simp add: wp_def findUnique_def)

lemma wp_update [simp]:
  "wp (update sid data) Q w =
     (case store w sid of
        None \<Rightarrow> Q (Inl RecordNotFound) w
      | Some r \<Rightarrow>
          Q (Inr ()) (w\<lparr>store := (store w)(sid \<mapsto> fold apply_field data r),
                        trace := trace w @ [Update sid data]\<rparr>))"
  by (simp add: wp_def update_def split: option.splits)

lemma wp_conseq: "wp m Q w \<Longrightarrow> (\<And>r w'. Q r w' \<Longrightarrow> Q' r w') \<Longrightarrow> wp m Q' w"
  by (auto simp add: wp_def split: prod.splits)

lemma wp_run: "m w = (r, w') \<Longrightarrow> wp m Q w \<Longrightarrow> Q r w'"
  by (simp add: wp_def)

lemma wp_fst_snd: "wp m Q w = Q (fst (m w)) (snd (m w))"
  by (simp add: wp_def split: prod.splits)

lemma extends_refl [simp]: "extends P w w"
  by (simp add: extends_def new_events_def)

lemma extends_decompose:
  "extends P w w' \<Longrightarrow> trace w' = trace w @ new_events w w'"
  by (auto simp add: extends_def new_events_def prefix_def)

lemma extends_trans:
  assumes "extends P w w1" and "extends P w1 w2"
  shows "extends P w w2"
proof -
  obtain e1 where 1: "trace w1 = trace w @ e1" and p1: "list_all P e1"
    using assms(1) by (auto simp add: extends_def new_events_def prefix_def)
  obtain e2 where 2: "trace w2 = trace w1 @ e2" and p2: "list_all P e2"
    using assms(2) by (auto simp add: extends_def new_events_def prefix_def)
  have "trace w2 = trace w @ (e1 @ e2)" using 1 2 by simp
  then show ?thesis using p1 p2 by (simp add: extends_def new_events_def)
qed

lemma extends_mono: "extends P w w' \<Longrightarrow> (\<And>ev. P ev \<Longrightarrow> Q ev) \<Longrightarrow> extends Q w w'"
  by (auto simp add: extends_def list_all_iff)

lemma extends_append:
  "trace w' = trace w @ evs \<Longrightarrow> extends P w w' = list_all P evs"
  by (simp add: extends_def new_events_def)

lemma same_core_refl [simp]: "same_core r r"
  by (simp add: same_core_def)

lemma same_core_trans: "same_core r r1 \<Longrightarrow> same_core r1 r2 \<Longrightarrow> same_core r r2"
  by (simp add: same_core_def)

lemma authorize_rel_refl: "authorize_rel ex sid w w"
  by (simp add: authorize_rel_def split: option.splits)

lemma check_write_mono:
  "check_write c data \<Longrightarrow> c0 = None \<or> c0 = c \<Longrightarrow> check_write c0 data"
  by (induction c data rule: check_write.induct) simp_all

lemma check_event_mono:
  assumes "check_event ex sid c ev" and "c0 = None \<or> c0 = c"
  shows "check_event ex sid c0 ev"
proof (cases ev)
  case (Update k data)
  then show ?thesis using assms check_write_mono[of c data c0] by simp
next
  case (StartAuthorization a ci)
  then show ?thesis using assms by auto
next
  case (RegisterClient a)
  then show ?thesis using assms by auto
qed (use assms in simp_all)

lemma authorize_rel_cached:
  assumes "authorize_rel ex sid w w1"
  shows "cached_client sid w = None \<or> cached_client sid w = cached_client sid w1"
proof (cases "store w sid")
  case None
  then show ?thesis by (simp add: cached_client_def)
next
  case (Some r)
  then obtain r1 where r1: "store w1 sid = Some r1" "same_core r r1"
    using assms by (cases "store w1 sid") (simp_all add: authorize_rel_def)
  with Some show ?thesis
    by (cases "clientInfo r") (simp_all add: cached_client_def same_core_def)
qed

lemma authorize_rel_trans:
  assumes "authorize_rel ex sid w w1" and "authorize_rel ex sid w1 w2"
  shows "authorize_rel ex sid w w2"
proof -
  have at: "(case store w sid of
         None \<Rightarrow> store w2 sid = None
       | Some r \<Rightarrow> (case store w2 sid of None \<Rightarrow> False | Some r' \<Rightarrow> same_core r r'))"
  proof (cases "store w sid")
    case None
    then show ?thesis using assms by (simp add: authorize_rel_def)
  next
    case (Some r)
    then obtain r1 where r1: "store w1 sid = Some r1" "same_core r r1"
      using assms(1) by (cases "store w1 sid") (simp_all add: authorize_rel_def)
    then obtain r2 where r2: "store w2 sid = Some r2" "same_core r1 r2"
      using assms(2) by (cases "store w2 sid") (simp_all add: authorize_rel_def)
    from Some r1 r2 same_core_trans[OF r1(2) r2(2)] show ?thesis by simp
  qed
  note c = authorize_rel_cached[OF assms(1)]
  have "extends (check_event ex sid (cached_client sid w)) w1 w2"
  proof (rule extends_mono)
    show "extends (check_event ex sid (cached_client sid w1)) w1 w2"
      using assms(2) by (simp add: authorize_rel_def)
    show "\<And>ev. check_event ex sid (cached_client sid w1) ev \<Longrightarrow>
        check_event ex sid (cached_client sid w) ev"
      using c check_event_mono by blast
  qed
  moreover have "extends (check_event ex sid (cached_client sid w)) w w1"
    using assms(1) by (simp add: authorize_rel_def)
  ultimately have ev: "extends (check_event ex sid (cached_client sid w)) w w2"
    using extends_trans by blast
  have others: "\<forall>k. k \<noteq> sid \<longrightarrow> store w2 k = store w k"
    using assms by (simp add: authorize_rel_def)
  show ?thesis unfolding authorize_rel_def using ev others at by blast
qed

section \<open>The check route, step by step\<close>

lemma authorize_rel_log:
  assumes "list_all (check_event ex sid (cached_client sid w)) evs"
  shows "authorize_rel ex sid w (w\<lparr>trace := trace w @ evs\<rparr>)"
  using assms by (simp add: authorize_rel_def extends_append split: option.splits)

lemma authorize_rel_update:
  assumes "store w sid = Some r" and "same_core r r'"
    and "list_all (check_event ex sid (clientInfo r)) evs"
  shows "authorize_rel ex sid w (w\<lparr>store := (store w)(sid \<mapsto> r'), trace := trace w @ evs\<rparr>)"
  using assms by (simp add: authorize_rel_def extends_append cached_client_def)

lemma required_result_simps [simp]:
  "required_result sid (Inl e)"
  "required_result sid (Inr (required_response sid a b))"
  by (simp_all add: required_result_def required_response_def)

lemma check_start_spec0:
  assumes "cached_client sid w = Some ci"
  shows "wp (check_start ex sid \<lparr>serverId = sid, serverName = n\<rparr> a md ci)
           (\<lambda>res w'. authorize_rel ex sid w w' \<and> required_result sid res) w"
proof (cases "store w sid")
  case None
  then show ?thesis using assms by (simp add: cached_client_def)
next
  case (Some r)
  with assms have ci: "clientInfo r = Some ci" by (simp add: cached_client_def)
  show ?thesis
  proof (cases "getAppUrl (process_env ex)")
    case (Inl e)
    then show ?thesis
      by (simp add: check_start_def provider_redirectUrl_def authorize_rel_refl)
  next
    case (Inr appUrl)
    show ?thesis
    proof (cases "startAuthorization_outcome ex a md ci (appUrl @ ''/api/oauth/callback/'' @ sid)")
      case (Inl e)
      then show ?thesis using Inr assms
        by (simp add: check_start_def provider_redirectUrl_def startAuthorization_def
            authorize_rel_log)
    next
      case (Inr p)
      obtain au v where p: "p = (au, v)" by (cases p)
      have "same_core r (r\<lparr>codeVerifier := Some v\<rparr>)" by (simp add: same_core_def)
      then have "authorize_rel ex sid w
          (w\<lparr>store := (store w)(sid \<mapsto> r\<lparr>codeVerifier := Some v\<rparr>),
             trace := trace w @ [StartAuthorization a ci, Update sid [Set_codeVerifier (Some v)]]\<rparr>)"
        using Some ci \<open>getAppUrl (process_env ex) = Inr appUrl\<close>
        by (intro authorize_rel_update[where r = r]) simp_all
      then show ?thesis using Inr p Some \<open>getAppUrl (process_env ex) = Inr appUrl\<close>
        by (simp add: check_start_def provider_redirectUrl_def startAuthorization_def
            provider_saveCodeVerifier_def)
    qed
  qed
qed

lemma check_start_spec:
  assumes "authorize_rel ex sid w0 w" and "cached_client sid w = Some ci"
  shows "wp (check_start ex sid \<lparr>serverId = sid, serverName = n\<rparr> a md ci)
           (\<lambda>res w'. authorize_rel ex sid w0 w' \<and> required_result sid res) w"
proof (rule wp_conseq[OF check_start_spec0[OF assms(2)]])
  fix res w'
  assume "authorize_rel ex sid w w' \<and> required_result sid res"
  then show "authorize_rel ex sid w0 w' \<and> required_result sid res"
    using assms(1) authorize_rel_trans by blast
qed

lemma clientMetadata_Inr:
  "provider_clientMetadata pe p = Inr cm \<Longrightarrow> \<not> isl (getAppUrl pe)"
  by (cases "getAppUrl pe") (simp_all add: provider_clientMetadata_def)

lemma check_client_spec0:
  "wp (check_client ex sid \<lparr>serverId = sid, serverName = n\<rparr> a md)
     (\<lambda>res w'. authorize_rel ex sid w w' \<and> required_result sid res) w"
proof (cases "cached_client sid w")
  case (Some ci)
  then have "map_option clientInfo (store w sid) = Some (Some ci)"
    by (cases "store w sid") (simp_all add: cached_client_def)
  then show ?thesis
    using check_start_spec[OF authorize_rel_refl Some, of ex n a md]
    by (cases "store w sid") (simp_all add: check_client_def provider_clientInformation_def)
next
  case None
  then have info: "(case store w sid of None \<Rightarrow> None | Some r \<Rightarrow> clientInfo r) = None"
    by (simp add: cached_client_def)
  show ?thesis
  proof (cases "truthy (registration_endpoint md)")
    case False
    then show ?thesis using info
      by (simp add: check_client_def provider_clientInformation_def authorize_rel_refl)
  next
    case True
    show ?thesis
    proof (cases "provider_clientMetadata (process_env ex) \<lparr>serverId = sid, serverName = n\<rparr>")
      case (Inl e)
      then show ?thesis using info True
        by (simp add: check_client_def provider_clientInformation_def authorize_rel_refl)
    next
      case (Inr cm)
      note url = clientMetadata_Inr[OF Inr]
      have reg: "authorize_rel ex sid w (w\<lparr>trace := trace w @ [RegisterClient a]\<rparr>)"
        using None url by (intro authorize_rel_log) simp
      show ?thesis
      proof (cases "registerClient_outcome ex a md cm")
        case (Inl e)
        then show ?thesis using info True Inr reg
          by (simp add: check_client_def provider_clientInformation_def registerClient_def)
      next
        case (Inr ci)
        show ?thesis
        proof (cases "store w sid")
          case None
          then show ?thesis
            using info True \<open>provider_clientMetadata (process_env ex) \<lparr>serverId = sid, serverName = n\<rparr> = Inr cm\<close> Inr reg
            by (simp add: check_client_def provider_clientInformation_def registerClient_def
                provider_saveClientInformation_def)
        next
          case (Some r)
          let ?w3 = "w\<lparr>store := (store w)(sid \<mapsto> r\<lparr>clientInfo := Some ci\<rparr>),
                       trace := trace w @ [RegisterClient a, Update sid [Set_clientInfo ci]]\<rparr>"
          from Some info have none: "clientInfo r = None" by simp
          then have "same_core r (r\<lparr>clientInfo := Some ci\<rparr>)" by (simp add: same_core_def)
          then have rel: "authorize_rel ex sid w ?w3"
            using Some none url by (intro authorize_rel_update[where r = r]) simp_all
          have "cached_client sid ?w3 = Some ci" by (simp add: cached_client_def)
          from check_start_spec[OF rel this, of n a md] show ?thesis
            using info True \<open>provider_clientMetadata (process_env ex) \<lparr>serverId = sid, serverName = n\<rparr> = Inr cm\<close> Inr Some
            by (simp add: check_client_def provider_clientInformation_def registerClient_def
                provider_saveClientInformation_def)
        qed
      qed
    qed
  qed
qed

lemma check_authorize_spec0:
  "wp (check_authorize ex sid u det \<lparr>serverId = sid, serverName = n\<rparr>)
     (\<lambda>res w'. authorize_rel ex sid w w' \<and> required_result sid res) w"
proof (cases "URL_valid ex u")
  case False
  then show ?thesis by (simp add: check_authorize_def new_URL_def authorize_rel_refl)
next
  case True
  let ?hint = "if truthy (d_resourceMetadataUrl det) then d_resourceMetadataUrl det else None"
  let ?w1 = "w\<lparr>trace := trace w @ [DiscoverProtectedResource u ?hint]\<rparr>"
  have r1: "authorize_rel ex sid w ?w1" by (intro authorize_rel_log) simp
  have done1: "\<And>m. wp (io_return (required_response sid None (Some m)))
      (\<lambda>res w'. authorize_rel ex sid w w' \<and> required_result sid res) ?w1"
    using r1 by simp
  show ?thesis
  proof (cases "resource_metadata_outcome ex u ?hint")
    case (Inl e)
    then show ?thesis using True r1
      by (simp add: check_authorize_def new_URL_def discoverOAuthProtectedResourceMetadata_def)
  next
    case (Inr rm)
    show ?thesis
    proof (cases "case rm of None \<Rightarrow> None | Some x \<Rightarrow> authorization_servers x")
      case None
      then show ?thesis using True Inr done1
        by (simp add: check_authorize_def new_URL_def discoverOAuthProtectedResourceMetadata_def)
    next
      case (Some servers)
      show ?thesis
      proof (cases servers)
        case Nil
        then show ?thesis using True Inr Some done1
          by (simp add: check_authorize_def new_URL_def discoverOAuthProtectedResourceMetadata_def)
      next
        case (Cons a rest)
        let ?w2 = "w\<lparr>trace := trace w @ [DiscoverProtectedResource u ?hint, DiscoverAuthorizationServer a]\<rparr>"
        have r2: "authorize_rel ex sid w ?w2" by (intro authorize_rel_log) simp
        show ?thesis
        proof (cases "as_metadata_outcome ex a")
          case (Inl e)
          then show ?thesis using True Inr Some Cons r2
            by (simp add: check_authorize_def new_URL_def discoverOAuthProtectedResourceMetadata_def
                discoverAuthorizationServerMetadata_def)
        next
          case (Inr mdo)
          show ?thesis
          proof (cases mdo)
            case None
            then show ?thesis
              using True \<open>resource_metadata_outcome ex u ?hint = Inr rm\<close> Some Cons Inr r2
              by (simp add: check_authorize_def new_URL_def discoverOAuthProtectedResourceMetadata_def
                  discoverAuthorizationServerMetadata_def)
          next
            case (Some md)
            have "wp (check_client ex sid \<lparr>serverId = sid, serverName = n\<rparr> a md)
                    (\<lambda>res w'. authorize_rel ex sid w w' \<and> required_result sid res) ?w2"
            proof (rule wp_conseq[OF check_client_spec0])
              fix res w'
              assume "authorize_rel ex sid ?w2 w' \<and> required_result sid res"
              then show "authorize_rel ex sid w w' \<and> required_result sid res"
                using r2 authorize_rel_trans by blast
            qed
            then show ?thesis
              using True \<open>resource_metadata_outcome ex u ?hint = Inr rm\<close>
                \<open>(case rm of None \<Rightarrow> None | Some x \<Rightarrow> authorization_servers x) = Some servers\<close>
                Cons Inr Some
              by (simp add: check_authorize_def new_URL_def discoverOAuthProtectedResourceMetadata_def
                  discoverAuthorizationServerMetadata_def)
          qed
        qed
      qed
    qed
  qed
qed

lemma detect_run:
  "detectOAuthRequirement ex u w =
     (Inr (classify (fetch_outcome ex u)), w\<lparr>trace := trace w @ [Fetch u]\<rparr>)"
  by (simp add: detectOAuthRequirement_def fetch_def io_try_def io_bind_def io_log_def io_lift_def
      io_return_def classify_def split: fetch_outcome.split option.split)

lemma wp_detect [simp]:
  "wp (detectOAuthRequirement ex u) Q w =
     Q (Inr (classify (fetch_outcome ex u))) (w\<lparr>trace := trace w @ [Fetch u]\<rparr>)"
  by (simp add: wp_def detect_run)

lemma check_detect_spec:
  assumes "store w sid = Some r" and "url server = Some u"
  shows "wp (check_detect ex sid server) (detect_post ex sid u r w) w"
proof (cases "d_requiresAuth (classify (fetch_outcome ex u))")
  case False
  then show ?thesis using assms
    by (simp add: check_detect_def updateServerOAuthStatus_def detect_post_def after_detect_def
        detected_status_def)
next
  case True
  let ?w1 = "after_detect ex sid u r w"
  have w1: "?w1 = w\<lparr>store := (store w)(sid \<mapsto> r\<lparr>oauthStatus := Some OAuthStatus_REQUIRED\<rparr>),
       trace := trace w @ [Fetch u, Update sid [Set_oauthStatus OAuthStatus_REQUIRED]]\<rparr>"
    using True by (simp add: after_detect_def detected_status_def)
  have "wp (check_authorize ex sid u (classify (fetch_outcome ex u))
             \<lparr>serverId = sid, serverName = name server\<rparr>)
          (\<lambda>res w'. case res of
               Inl e \<Rightarrow>
                 wp (io_return (required_response sid None
                      (Some (case e of JsError m \<Rightarrow> m | NonError \<Rightarrow> msg_generic_failure))))
                   (detect_post ex sid u r w) w'
             | Inr x \<Rightarrow> detect_post ex sid u r w (Inr x) w') ?w1"
  proof (rule wp_conseq[OF check_authorize_spec0])
    fix res w'
    assume a: "authorize_rel ex sid ?w1 w' \<and> required_result sid res"
    show "case res of
               Inl e \<Rightarrow>
                 wp (io_return (required_response sid None
                      (Some (case e of JsError m \<Rightarrow> m | NonError \<Rightarrow> msg_generic_failure))))
                   (detect_post ex sid u r w) w'
             | Inr x \<Rightarrow> detect_post ex sid u r w (Inr x) w'"
    proof (cases res)
      case (Inl e)
      then show ?thesis using a True
        by (simp add: detect_post_def required_response_def detected_status_def)
    next
      case (Inr resp)
      then have "resp = required_response sid (r_authorizationUrl (body resp)) (r_error (body resp))"
        using a by (simp add: required_result_def)
      then have "http_status resp = 200 \<and> r_serverId (body resp) = sid \<and>
          r_oauthStatus (body resp) = OAuthStatus_REQUIRED \<and>  r_requiresAuth (body resp) \<and>
          \<not> r_connected (body resp)"
        by (metis (no_types, lifting) required_response_def json_response.select_convs(1,2)
            CheckOAuthResponse.select_convs(1,2,3,4))
      then show ?thesis using Inr a True
        by (simp add: detect_post_def detected_status_def)
    qed
  qed
  then show ?thesis using assms True w1
    by (simp add: check_detect_def updateServerOAuthStatus_def)
qed

lemma wp_findFirst_http [simp]: "wp (findFirst_http sid) Q w = Q (Inr (found_http sid w)) w"
  by (simp add: wp_def findFirst_http_def found_http_def)

lemma found_http_store:
  "found_http sid w = Some r \<Longrightarrow> store w sid = Some r \<and> type r = ''http'' \<and> (\<exists>u. url r = Some u)"
  by (auto simp add: found_http_def split: option.splits if_splits)

lemma check_GET_spec: "wp (check_GET ex sid) (check_post ex sid w) w"
proof (cases "found_http sid w")
  case None
  then show ?thesis by (simp add: check_GET_def check_post_def)
next
  case (Some r)
  then obtain u where r: "store w sid = Some r" "url r = Some u"
    using found_http_store by blast
  consider (valid) "connected_valid ex r"
    | (expired) "connected_expired ex r"
    | (other) "\<not> (oauthStatus r = Some OAuthStatus_CONNECTED \<and> authTokens r \<noteq> None)"
    unfolding connected_valid_def connected_expired_def by blast
  then show ?thesis
  proof cases
    case valid
    then show ?thesis using Some
      by (simp add: check_GET_def check_post_def connected_valid_def)
  next
    case expired
    then have nv: "\<not> connected_valid ex r"
      by (simp add: connected_valid_def connected_expired_def)
    have st: "store (expired_world sid r w) sid = Some (r\<lparr>oauthStatus := Some OAuthStatus_EXPIRED\<rparr>)"
      by (simp add: expired_world_def)
    have "wp (check_detect ex sid r) (check_post ex sid w) (expired_world sid r w)"
    proof (rule wp_conseq[OF check_detect_spec[OF st r(2), of ex]])
      fix res w'
      assume "detect_post ex sid u (r\<lparr>oauthStatus := Some OAuthStatus_EXPIRED\<rparr>)
                (expired_world sid r w) res w'"
      then show "check_post ex sid w res w'"
        using Some r expired nv by (simp add: check_post_def)
    qed
    then show ?thesis
      using Some r expired
      by (simp add: check_GET_def connected_expired_def updateServerOAuthStatus_def
          expired_world_def)
  next
    case other
    then have no: "\<not> connected_valid ex r" "\<not> connected_expired ex r"
      by (auto simp add: connected_valid_def connected_expired_def)
    have "wp (check_detect ex sid r) (check_post ex sid w) w"
    proof (rule wp_conseq[OF check_detect_spec[OF r, of ex]])
      fix res w'
      assume "detect_post ex sid u r w res w'"
      then show "check_post ex sid w res w'"
        using Some r no by (simp add: check_post_def)
    qed
    then show ?thesis
      using Some r other by (auto simp add: check_GET_def)
  qed
qed

lemma check_GET_post: "check_GET ex sid w = (res, w') \<Longrightarrow> check_post ex sid w res w'"
  using check_GET_spec[of ex sid w] by (simp add: wp_def)

lemma detect_post_facts:
  assumes post: "detect_post ex sid u r w res w'" and r: "store w sid = Some r"
  obtains resp r' rest where
    "res = Inr resp" "http_status resp = 200"
    "r_oauthStatus (body resp) = detected_status ex u"
    "store w' sid = Some r'"
    "same_core (r\<lparr>oauthStatus := Some (detected_status ex u)\<rparr>) r'"
    "\<forall>k. k \<noteq> sid \<longrightarrow> store w' k = store w k"
    "trace w' = trace w @ [Fetch u, Update sid [Set_oauthStatus (detected_status ex u)]] @ rest"
    "list_all (check_event ex sid (clientInfo r)) rest"
proof -
  obtain resp where resp: "res = Inr resp" "http_status resp = 200"
    "r_oauthStatus (body resp) = detected_status ex u"
    using post by (cases res) (simp_all add: detect_post_def)
  let ?w1 = "after_detect ex sid u r w"
  have w1: "store ?w1 sid = Some (r\<lparr>oauthStatus := Some (detected_status ex u)\<rparr>)"
    "\<And>k. k \<noteq> sid \<Longrightarrow> store ?w1 k = store w k"
    "trace ?w1 = trace w @ [Fetch u, Update sid [Set_oauthStatus (detected_status ex u)]]"
    "cached_client sid ?w1 = clientInfo r"
    by (simp_all add: after_detect_def cached_client_def)
  have rel: "authorize_rel ex sid ?w1 w'"
    using post resp by (cases "d_requiresAuth (classify (fetch_outcome ex u))")
      (simp_all add: detect_post_def authorize_rel_refl)
  then obtain r' where r': "store w' sid = Some r'"
    "same_core (r\<lparr>oauthStatus := Some (detected_status ex u)\<rparr>) r'"
    using w1(1) by (cases "store w' sid") (simp_all add: authorize_rel_def)
  have others: "\<forall>k. k \<noteq> sid \<longrightarrow> store w' k = store w k"
    using rel w1(2) by (simp add: authorize_rel_def)
  have ext: "extends (check_event ex sid (clientInfo r)) ?w1 w'"
    using rel w1(4) by (simp add: authorize_rel_def)
  define rest where "rest = new_events ?w1 w'"
  have "trace w' = trace ?w1 @ rest" using ext extends_decompose rest_def by blast
  then have t: "trace w' = trace w @ [Fetch u, Update sid [Set_oauthStatus (detected_status ex u)]] @ rest"
    using w1(3) by simp
  have l: "list_all (check_event ex sid (clientInfo r)) rest"
    using ext by (simp add: extends_def rest_def)
  show thesis by (rule that[OF resp r' others t l])
qed

lemma detected_status_cases:
  "detected_status ex u = OAuthStatus_REQUIRED \<or> detected_status ex u = OAuthStatus_NOT_REQUIRED"
  by (simp add: detected_status_def)

lemma status_distinct [simp]:
  "OAuthStatus_REQUIRED \<noteq> OAuthStatus_CONNECTED"
  "OAuthStatus_NOT_REQUIRED \<noteq> OAuthStatus_CONNECTED"
  "OAuthStatus_REQUIRED \<noteq> OAuthStatus_EXPIRED"
  "OAuthStatus_NOT_REQUIRED \<noteq> OAuthStatus_EXPIRED"
  "OAuthStatus_CONNECTED \<noteq> OAuthStatus_EXPIRED"
  "OAuthStatus_REQUIRED \<noteq> OAuthStatus_NOT_REQUIRED"
  "OAuthStatus_CONNECTED \<noteq> OAuthStatus_REQUIRED"
  "OAuthStatus_CONNECTED \<noteq> OAuthStatus_NOT_REQUIRED"
  "OAuthStatus_EXPIRED \<noteq> OAuthStatus_REQUIRED"
  "OAuthStatus_EXPIRED \<noteq> OAuthStatus_NOT_REQUIRED"
  "OAuthStatus_EXPIRED \<noteq> OAuthStatus_CONNECTED"
  "OAuthStatus_NOT_REQUIRED \<noteq> OAuthStatus_REQUIRED"
  by (simp_all add: OAuthStatus_REQUIRED_def OAuthStatus_CONNECTED_def OAuthStatus_NOT_REQUIRED_def
      OAuthStatus_EXPIRED_def)

text \<open>The three ways through the route, with what each leaves behind.\<close>

lemma check_GET_cases:
  assumes run: "check_GET ex sid w = (res, w')"
  obtains
    (not_found) "found_http sid w = None" "w' = w"
      "res = Inr \<lparr>http_status = 404,
                  body = \<lparr>r_serverId = sid, r_requiresAuth = False, r_connected = False,
                           r_oauthStatus = OAuthStatus_NOT_REQUIRED,
                           r_authorizationUrl = None, r_error = Some msg_not_found\<rparr>\<rparr>"
  | (connected) r where "found_http sid w = Some r" "connected_valid ex r" "w' = w"
      "res = Inr \<lparr>http_status = 200,
                  body = \<lparr>r_serverId = sid, r_requiresAuth = True, r_connected = True,
                           r_oauthStatus = OAuthStatus_CONNECTED,
                           r_authorizationUrl = None, r_error = None\<rparr>\<rparr>"
  | (detected) r u resp r' rest where
      "found_http sid w = Some r" "url r = Some u" "\<not> connected_valid ex r"
      "res = Inr resp" "http_status resp = 200"
      "r_oauthStatus (body resp) = detected_status ex u"
      "store w' sid = Some r'"
      "same_core (r\<lparr>oauthStatus := Some (detected_status ex u)\<rparr>) r'"
      "\<forall>k. k \<noteq> sid \<longrightarrow> store w' k = store w k"
      "trace w' = trace w @
         (if connected_expired ex r then [Update sid [Set_oauthStatus OAuthStatus_EXPIRED]] else []) @
         [Fetch u, Update sid [Set_oauthStatus (detected_status ex u)]] @ rest"
      "list_all (check_event ex sid (clientInfo r)) rest"
proof -
  note post = check_GET_post[OF run]
  show thesis
  proof (cases "found_http sid w")
    case None
    then show ?thesis using post not_found by (simp add: check_post_def)
  next
    case (Some r)
    then obtain u where r: "store w sid = Some r" "url r = Some u"
      using found_http_store by blast
    show ?thesis
    proof (cases "connected_valid ex r")
      case True
      then show ?thesis using post Some connected by (simp add: check_post_def)
    next
      case nv: False
      show ?thesis
      proof (cases "connected_expired ex r")
        case True
        let ?r = "r\<lparr>oauthStatus := Some OAuthStatus_EXPIRED\<rparr>"
        have dp: "detect_post ex sid u ?r (expired_world sid r w) res w'"
          using post Some nv True r by (simp add: check_post_def)
        have st: "store (expired_world sid r w) sid = Some ?r" by (simp add: expired_world_def)
        show ?thesis
        proof (rule detect_post_facts[OF dp st])
          fix resp r' rest
          assume f: "res = Inr resp" "http_status resp = 200"
            "r_oauthStatus (body resp) = detected_status ex u"
            "store w' sid = Some r'"
            "same_core (?r\<lparr>oauthStatus := Some (detected_status ex u)\<rparr>) r'"
            "\<forall>k. k \<noteq> sid \<longrightarrow> store w' k = store (expired_world sid r w) k"
            "trace w' = trace (expired_world sid r w) @
               [Fetch u, Update sid [Set_oauthStatus (detected_status ex u)]] @ rest"
            "list_all (check_event ex sid (clientInfo ?r)) rest"
          show ?thesis
          proof (rule detected[OF Some r(2) nv f(1,2,3,4)])
            show "same_core (r\<lparr>oauthStatus := Some (detected_status ex u)\<rparr>) r'"
              using f(5) by simp
            show "\<forall>k. k \<noteq> sid \<longrightarrow> store w' k = store w k"
              using f(6) by (simp add: expired_world_def)
            show "trace w' = trace w @
                (if connected_expired ex r then [Update sid [Set_oauthStatus OAuthStatus_EXPIRED]] else []) @
                [Fetch u, Update sid [Set_oauthStatus (detected_status ex u)]] @ rest"
              using f(7) True by (simp add: expired_world_def)
            show "list_all (check_event ex sid (clientInfo r)) rest" using f(8) by simp
          qed
        qed
      next
        case False
        have dp: "detect_post ex sid u r w res w'"
          using post Some nv False r by (simp add: check_post_def)
        show ?thesis
        proof (rule detect_post_facts[OF dp r(1)])
          fix resp r' rest
          assume f: "res = Inr resp" "http_status resp = 200"
            "r_oauthStatus (body resp) = detected_status ex u"
            "store w' sid = Some r'"
            "same_core (r\<lparr>oauthStatus := Some (detected_status ex u)\<rparr>) r'"
            "\<forall>k. k \<noteq> sid \<longrightarrow> store w' k = store w k"
            "trace w' = trace w @ [Fetch u, Update sid [Set_oauthStatus (detected_status ex u)]] @ rest"
            "list_all (check_event ex sid (clientInfo r)) rest"
          show ?thesis
          proof (rule detected[OF Some r(2) nv f(1,2,3,4,5,6) _ f(8)])
            show "trace w' = trace w @
                (if connected_expired ex r then [Update sid [Set_oauthStatus OAuthStatus_EXPIRED]] else []) @
                [Fetch u, Update sid [Set_oauthStatus (detected_status ex u)]] @ rest"
              using f(7) False by simp
          qed
        qed
      qed
    qed
  qed
qed

lemma found_http_cached:
  "found_http sid w = Some r \<Longrightarrow> cached_client sid w = clientInfo r"
  by (auto simp add: found_http_def cached_client_def split: option.splits if_splits)

lemma check_GET_status:
  assumes "check_GET ex sid w = (res, w')"
  shows "\<exists>resp. res = Inr resp \<and> r_oauthStatus (body resp) = check_status ex sid w"
  using assms
proof (cases rule: check_GET_cases)
  case not_found
  then show ?thesis by (simp add: check_status_def)
next
  case (connected r)
  then show ?thesis by (simp add: check_status_def)
next
  case (detected r u resp r' rest)
  then show ?thesis by (simp add: check_status_def)
qed

lemma check_GET_status_again:
  assumes run: "check_GET ex sid w = (res, w')"
    and same: "fetch_outcome ex2 = fetch_outcome ex"
      "isTokenExpired (Date_now ex2) (stored_tokens sid w) =
       isTokenExpired (Date_now ex) (stored_tokens sid w)"
  shows "check_status ex2 sid w' = check_status ex sid w"
  using run
proof (cases rule: check_GET_cases)
  case not_found
  then show ?thesis by (simp add: check_status_def)
next
  case (connected r)
  have "store w sid = Some r" using connected(1) found_http_store by blast
  then have "isTokenExpired (Date_now ex2) (authTokens r) = isTokenExpired (Date_now ex) (authTokens r)"
    using same(2) by (simp add: stored_tokens_def)
  then show ?thesis using connected by (simp add: check_status_def connected_valid_def)
next
  case (detected r u resp r' rest)
  have t: "type r = ''http''" using detected(1) found_http_store by blast
  have core: "type r' = type r" "url r' = url r" "oauthStatus r' = Some (detected_status ex u)"
    using detected(8) by (simp_all add: same_core_def)
  have found: "found_http sid w' = Some r'"
    using detected(7,2) t core by (simp add: found_http_def)
  have "\<not> connected_valid ex2 r'"
    using core(3) detected_status_cases[of ex u] by (auto simp add: connected_valid_def)
  moreover have "detected_status ex2 u = detected_status ex u"
    using same by (simp add: detected_status_def)
  ultimately show ?thesis using found detected(1,2,3) core(2)
    by (simp add: check_status_def)
qed

lemma check_GET_frame:
  assumes run: "check_GET ex sid w = (res, w')"
  shows "extends (check_event ex sid (cached_client sid w)) w w' \<and>
         (cached_client sid w \<noteq> None \<longrightarrow> cached_client sid w' = cached_client sid w) \<and>
         (\<forall>k. k \<noteq> sid \<longrightarrow> store w' k = store w k) \<and>
         (case store w sid of
            None \<Rightarrow> store w' sid = None
          | Some r \<Rightarrow>
              (case store w' sid of
                 None \<Rightarrow> False
               | Some r' \<Rightarrow>
                   oauthStatus r' = oauthStatus r \<or>
                   oauthStatus r' = Some OAuthStatus_REQUIRED \<or>
                   oauthStatus r' = Some OAuthStatus_NOT_REQUIRED))"
  using run
proof (cases rule: check_GET_cases)
  case not_found
  then show ?thesis by (simp split: option.splits)
next
  case (connected r)
  then show ?thesis by (simp split: option.splits)
next
  case (detected r u resp r' rest)
  have r: "store w sid = Some r" using detected(1) found_http_store by blast
  have c: "cached_client sid w = clientInfo r" using detected(1) by (rule found_http_cached)
  have st: "detected_status ex u \<in> {OAuthStatus_EXPIRED, OAuthStatus_NOT_REQUIRED, OAuthStatus_REQUIRED}"
    using detected_status_cases[of ex u] by auto
  have "list_all (check_event ex sid (clientInfo r))
      ((if connected_expired ex r then [Update sid [Set_oauthStatus OAuthStatus_EXPIRED]] else []) @
       [Fetch u, Update sid [Set_oauthStatus (detected_status ex u)]] @ rest)"
    using detected(11) st by simp
  then have "extends (check_event ex sid (cached_client sid w)) w w'"
    using detected(10) c by (simp add: extends_append)
  moreover have "cached_client sid w \<noteq> None \<longrightarrow> cached_client sid w' = cached_client sid w"
    using detected(7,8) r by (simp add: cached_client_def same_core_def)
  moreover have "oauthStatus r' = Some (detected_status ex u)"
    using detected(8) by (simp add: same_core_def)
  ultimately show ?thesis using detected(7,9) r detected_status_cases[of ex u]
    by auto
qed

section \<open>The callback route\<close>

lemma same_identity_refl [simp]: "same_identity r r"
  by (simp add: same_identity_def)

lemma same_identity_trans: "same_identity r r1 \<Longrightarrow> same_identity r1 r2 \<Longrightarrow> same_identity r r2"
  by (simp add: same_identity_def)

lemma callback_rel_refl: "callback_rel sid w w"
  by (simp add: callback_rel_def split: option.splits)

lemma callback_rel_trans:
  assumes "callback_rel sid w w1" and "callback_rel sid w1 w2"
  shows "callback_rel sid w w2"
proof -
  have at: "(case store w sid of
         None \<Rightarrow> store w2 sid = None
       | Some r \<Rightarrow> (case store w2 sid of None \<Rightarrow> False | Some r' \<Rightarrow> same_identity r r'))"
  proof (cases "store w sid")
    case None
    then show ?thesis using assms by (simp add: callback_rel_def)
  next
    case (Some r)
    then obtain r1 where r1: "store w1 sid = Some r1" "same_identity r r1"
      using assms(1) by (cases "store w1 sid") (simp_all add: callback_rel_def)
    then obtain r2 where r2: "store w2 sid = Some r2" "same_identity r1 r2"
      using assms(2) by (cases "store w2 sid") (simp_all add: callback_rel_def)
    from Some r1 r2 same_identity_trans[OF r1(2) r2(2)] show ?thesis by simp
  qed
  have ev: "extends (callback_event sid) w w2"
    using assms extends_trans by (simp add: callback_rel_def) blast
  have others: "\<forall>k. k \<noteq> sid \<longrightarrow> store w2 k = store w k"
    using assms by (simp add: callback_rel_def)
  show ?thesis unfolding callback_rel_def using ev others at by blast
qed

lemma callback_rel_update:
  assumes "store w sid = Some r" and "same_identity r r'" and "callback_event sid ev"
  shows "callback_rel sid w (w\<lparr>store := (store w)(sid \<mapsto> r'), trace := trace w @ [ev]\<rparr>)"
  using assms by (simp add: callback_rel_def extends_append)

lemma callback_rel_log:
  assumes "callback_event sid ev"
  shows "callback_rel sid w (w\<lparr>trace := trace w @ [ev]\<rparr>)"
  using assms by (simp add: callback_rel_def extends_append split: option.splits)

text \<open>Each member call that writes, as one step of the relation.\<close>

lemma sdk_step_update:
  assumes rel: "callback_rel sid w0 w"
    and data: "sdk_write data" "\<And>r. same_identity r (fold apply_field data r)"
    and IH: "\<And>x w. callback_rel sid w0 w \<Longrightarrow> wp (run_sdk pe p (k x)) (\<lambda>res w'. callback_rel sid w0 w') w"
  shows "wp (io_bind (io_outcome (update sid data)) (\<lambda>r. run_sdk pe p (k r)))
           (\<lambda>res w'. callback_rel sid w0 w') w"
proof (cases "store w sid")
  case None
  then show ?thesis using IH[OF rel] by simp
next
  case (Some r)
  have "callback_rel sid w (w\<lparr>store := (store w)(sid \<mapsto> fold apply_field data r),
                       trace := trace w @ [Update sid data]\<rparr>)"
    using Some data by (intro callback_rel_update) simp_all
  from IH[OF callback_rel_trans[OF rel this]] show ?thesis using Some by simp
qed

lemma run_sdk_rel:
  "callback_rel sid w0 w \<Longrightarrow>
   wp (run_sdk pe \<lparr>serverId = sid, serverName = n\<rparr> prog) (\<lambda>res w'. callback_rel sid w0 w') w"
proof (induction prog arbitrary: w)
  case Resolve
  then show ?case by simp
next
  case (Reject e)
  then show ?case by simp
next
  case (Call_clientInformation k)
  then show ?case by (simp add: provider_clientInformation_def)
next
  case (Call_saveClientInformation info k)
  have "\<And>r. same_identity r (fold apply_field [Set_clientInfo info] r)" by (simp add: same_identity_def)
  from sdk_step_update[OF Call_saveClientInformation(2) _ this, of pe _ k]
  show ?case using Call_saveClientInformation(1)
    by (simp add: provider_saveClientInformation_def del: wp_bind wp_outcome wp_update)
next
  case (Call_tokens k)
  then show ?case by (simp add: provider_tokens_def)
next
  case (Call_saveTokens tks k)
  have "\<And>r. same_identity r (fold apply_field [Set_authTokens tks, Set_oauthStatus OAuthStatus_CONNECTED] r)"
    by (simp add: same_identity_def)
  from sdk_step_update[OF Call_saveTokens(2) _ this, of pe _ k]
  show ?case using Call_saveTokens(1)
    by (simp add: provider_saveTokens_def del: wp_bind wp_outcome wp_update)
next
  case (Call_redirectToAuthorization u k)
  then show ?case by (simp add: provider_redirectToAuthorization_def)
next
  case (Call_saveCodeVerifier v k)
  have "\<And>r. same_identity r (fold apply_field [Set_codeVerifier (Some v)] r)" by (simp add: same_identity_def)
  from sdk_step_update[OF Call_saveCodeVerifier(2) _ this, of pe _ k]
  show ?case using Call_saveCodeVerifier(1)
    by (simp add: provider_saveCodeVerifier_def del: wp_bind wp_outcome wp_update)
next
  case (Call_codeVerifier k)
  then show ?case
    by (simp add: provider_codeVerifier_def split: option.split)
next
  case (Call_redirectUrl k)
  then show ?case by simp
next
  case (Call_clientMetadata k)
  then show ?case by simp
qed

lemma wp_redirect_to [simp]:
  "wp (redirect_to ex target base) Q w = Q (redirect_result ex target base) w"
  by (simp add: redirect_to_def redirect_result_def)

lemma targets_differ [simp]: "error_target reason \<noteq> success_target r"
  by (simp add: error_target_def success_target_def)

lemma redirect_result_not_success [simp]:
  "redirect_result ex (error_target reason) base \<noteq> Inr (Redirect (success_target r) base)"
  by (simp add: redirect_result_def)

lemma encoded_redirect_not_success [simp]:
  "encoded_redirect ex reason base \<noteq> Inr (Redirect (success_target r) base)"
  by (simp add: encoded_redirect_def)

lemma reachable_simps [simp]:
  "findUnique_rejects reachable = None"
  "update_connected_rejects reachable = None"
  "update_required_rejects reachable = None"
  by (simp_all add: reachable_def)

lemma io_bind_step: "m w = (Inr x, w1) \<Longrightarrow> io_bind m f w = f x w1"
  by (simp add: io_bind_def)

text \<open>The end of the \<open>catch\<close> block: the reason is encoded, then the redirect is built.\<close>

lemma encode_then_redirect:
  "io_bind (io_lift (encodeURIComponent reason))
     (\<lambda>enc. redirect_to ex (''/?oauth_error='' @ enc) base) w =
   (encoded_redirect ex reason base, w)"
  by (simp add: io_bind_def io_lift_def encodeURIComponent_def encoded_redirect_def
      redirect_to_def redirect_result_def error_target_def io_return_def io_throw_def)

text \<open>The \<open>catch\<close> block, entered in a world related to the initial one.\<close>

lemma callback_catch:
  assumes rel: "callback_rel sid w ws" and r: "store w sid = Some r"
    and c: "caught db ex sid q r w err"
    and run: "io_bind (store_call (update_required_rejects db)
                         (update sid [Set_oauthStatus ''REQUIRED'']))
                (\<lambda>_. io_bind (io_lift (encodeURIComponent (catch_reason err)))
                        (\<lambda>enc. redirect_to ex (''/?oauth_error='' @ enc) base)) ws = (res, w')"
  shows "exchange_post db ex sid q base r w res w'"
proof -
  obtain rs where rs: "store ws sid = Some rs" "same_identity r rs"
    using rel r by (cases "store ws sid") (simp_all add: callback_rel_def)
  show ?thesis
  proof (cases "update_required_rejects db")
    case (Some e)
    then have "res = Inl e" "w' = ws"
      using run by (simp_all add: io_bind_def store_call_def io_throw_def)
    then show ?thesis using rel rs Some by (simp add: exchange_post_def)
  next
    case None
    let ?w' = "ws\<lparr>store := (store ws)(sid \<mapsto> rs\<lparr>oauthStatus := Some ''REQUIRED''\<rparr>),
                   trace := trace ws @ [Update sid [Set_oauthStatus ''REQUIRED'']]\<rparr>"
    have "callback_rel sid ws ?w'"
      using rs by (intro callback_rel_update[where r = rs])
        (simp_all add: same_identity_def OAuthStatus_REQUIRED_def)
    then have rel': "callback_rel sid w ?w'" using rel callback_rel_trans by blast
    have u: "store_call (update_required_rejects db) (update sid [Set_oauthStatus ''REQUIRED'']) ws =
        (Inr (), ?w')"
      using None rs by (simp add: store_call_def update_def)
    have "io_bind (store_call (update_required_rejects db)
                         (update sid [Set_oauthStatus ''REQUIRED'']))
                (\<lambda>_. io_bind (io_lift (encodeURIComponent (catch_reason err)))
                        (\<lambda>enc. redirect_to ex (''/?oauth_error='' @ enc) base)) ws =
          (encoded_redirect ex (catch_reason err) base, ?w')"
      by (simp only: io_bind_step[of "store_call (update_required_rejects db)
            (update sid [Set_oauthStatus ''REQUIRED''])" ws "()" ?w', OF u] encode_then_redirect)
    with run have res: "res = encoded_redirect ex (catch_reason err) base" and w': "w' = ?w'"
      by simp_all
    have "\<exists>e. caught db ex sid q r w e \<and> res = encoded_redirect ex (catch_reason e) base"
      using res c by blast
    then show ?thesis using rel' res None
      by (simp add: exchange_post_def w' OAuthStatus_REQUIRED_def)
  qed
qed

lemma finishAuth_rel:
  assumes "transport_finishAuth ex \<lparr>serverId = sid, serverName = n\<rparr> u code w = (res, ws)"
  shows "callback_rel sid w ws"
proof -
  let ?w1 = "w\<lparr>trace := trace w @ [FinishAuth code]\<rparr>"
  have "callback_rel sid w ?w1" by (intro callback_rel_log) simp
  from run_sdk_rel[OF this, of "process_env ex" n "finishAuth_run ex u code"]
  have "wp (transport_finishAuth ex \<lparr>serverId = sid, serverName = n\<rparr> u code)
          (\<lambda>res w'. callback_rel sid w w') w"
    by (simp add: transport_finishAuth_def)
  then show ?thesis using assms by (simp add: wp_def)
qed

lemmas callback_unfold =
  callback_GET_on_def io_bind_def io_lift_def findUnique_def io_try_def new_URL_def
  io_return_def io_throw_def store_call_def catch_reason_def

lemma callback_exchange:
  assumes base: "getAppUrl (process_env ex) = Inr base"
    and q: "\<not> truthy (q_error q)" "truthy (q_code q)"
    and found: "findUnique_rejects db = None"
    and r: "store w sid = Some r" "truthy (url r)"
    and run: "callback_GET_on db ex sid q w = (res, w')"
  shows "exchange_post db ex sid q base r w res w'"
proof -
  obtain u where u: "url r = Some u" using r(2) by (cases "url r") (simp_all add: truthy_def)
  obtain code where code: "q_code q = Some code"
    using q(2) by (cases "q_code q") (simp_all add: truthy_def)
  let ?P = "\<lparr>serverId = sid, serverName = name r\<rparr>"
  let ?catch = "\<lambda>err. io_bind (store_call (update_required_rejects db)
                         (update sid [Set_oauthStatus ''REQUIRED'']))
                (\<lambda>_. io_bind (io_lift (encodeURIComponent (catch_reason err)))
                        (\<lambda>enc. redirect_to ex (''/?oauth_error='' @ enc) base))"
  show ?thesis
  proof (cases "URL_valid ex u")
    case False
    have "callback_GET_on db ex sid q w = ?catch (JsError ''Invalid URL'') w"
      using base q found r u code False by (simp add: callback_unfold)
    with run have "?catch (JsError ''Invalid URL'') w = (res, w')" by simp
    moreover have "caught db ex sid q r w (JsError ''Invalid URL'')" by (simp add: caught_def)
    ultimately show ?thesis using callback_catch[OF callback_rel_refl r(1)] by blast
  next
    case True
    obtain sres ws where sdk: "transport_finishAuth ex ?P u code w = (sres, ws)"
      by (cases "transport_finishAuth ex ?P u code w")
    note rel = finishAuth_rel[OF sdk]
    show ?thesis
    proof (cases sres)
      case (Inl e)
      have "callback_GET_on db ex sid q w = ?catch e ws"
        using base q found r u code True sdk Inl by (simp add: callback_unfold)
      with run have "?catch e ws = (res, w')" by simp
      moreover have "caught db ex sid q r w e" using sdk Inl u code by (simp add: caught_def)
      ultimately show ?thesis using callback_catch[OF rel r(1)] by blast
    next
      case (Inr x)
      show ?thesis
      proof (cases "update_connected_rejects db")
        case (Some e)
        have "callback_GET_on db ex sid q w = ?catch e ws"
          using base q found r u code True sdk Inr Some by (simp add: callback_unfold)
        with run have "?catch e ws = (res, w')" by simp
        moreover have "caught db ex sid q r w e" using Some by (simp add: caught_def)
        ultimately show ?thesis using callback_catch[OF rel r(1)] by blast
      next
        case None
        obtain rs where rs: "store ws sid = Some rs" "same_identity r rs"
          using rel r by (cases "store ws sid") (simp_all add: callback_rel_def)
        let ?data = "[Set_oauthStatus OAuthStatus_CONNECTED, Set_requiresAuth True, Set_codeVerifier None]"
        let ?w2 = "ws\<lparr>store := (store ws)(sid \<mapsto> fold apply_field ?data rs),
                      trace := trace ws @ [Update sid ?data]\<rparr>"
        have "callback_rel sid ws ?w2"
          using rs by (intro callback_rel_update[where r = rs]) (simp_all add: same_identity_def)
        then have rel2: "callback_rel sid w ?w2" using rel callback_rel_trans by blast
        show ?thesis
        proof (cases "lone_surrogate (name r)")
          case True
          have "callback_GET_on db ex sid q w = ?catch URIError ?w2"
            using base q found r u code \<open>URL_valid ex u\<close> sdk Inr None rs True
            by (simp add: callback_unfold update_def encodeURIComponent_def[of "name r"])
          with run have "?catch URIError ?w2 = (res, w')" by simp
          moreover have "caught db ex sid q r w URIError" by (simp add: caught_def)
          ultimately show ?thesis using callback_catch[OF rel2 r(1)] by blast
        next
          case wf: False
          show ?thesis
          proof (cases "URL_valid ex base")
            case False
            have "callback_GET_on db ex sid q w = ?catch (JsError ''Invalid URL'') ?w2"
              using base q found r u code True sdk Inr None rs wf False
              by (simp add: callback_unfold update_def encodeURIComponent_def[of "name r"]
                  redirect_to_def)
            with run have "?catch (JsError ''Invalid URL'') ?w2 = (res, w')" by simp
            moreover have "caught db ex sid q r w (JsError ''Invalid URL'')"
              by (simp add: caught_def)
            ultimately show ?thesis using callback_catch[OF rel2 r(1)] by blast
          next
            case valid: True
            have "callback_GET_on db ex sid q w = (Inr (Redirect (success_target r) base), ?w2)"
              using base q found r u code True sdk Inr None rs wf valid
              by (simp add: callback_unfold update_def encodeURIComponent_def[of "name r"]
                  redirect_to_def success_target_def)
            with run have "res = Inr (Redirect (success_target r) base)" "w' = ?w2" by simp_all
            then show ?thesis using rel2 valid
              by (simp add: exchange_post_def)
          qed
        qed
      qed
    qed
  qed
qed

lemma callback_GET_on_post:
  assumes "callback_GET_on db ex sid q w = (res, w')"
  shows "callback_post db ex sid q w res w'"
proof (cases "getAppUrl (process_env ex)")
  case (Inl e)
  then show ?thesis using assms
    by (simp add: callback_post_def callback_GET_on_def io_bind_def io_lift_def)
next
  case (Inr base)
  show ?thesis
  proof (cases "truthy (q_error q)")
    case True
    then show ?thesis using assms Inr
      by (simp add: callback_post_def callback_GET_on_def io_bind_def io_lift_def
          encodeURIComponent_def encoded_redirect_def redirect_to_def redirect_result_def
          error_target_def io_return_def io_throw_def split: if_splits)
  next
    case noerr: False
    show ?thesis
    proof (cases "truthy (q_code q)")
      case False
      then show ?thesis using assms Inr noerr
        by (simp add: callback_post_def callback_GET_on_def io_bind_def io_lift_def
            redirect_to_def redirect_result_def io_return_def io_throw_def split: if_splits)
    next
      case code: True
      show ?thesis
      proof (cases "findUnique_rejects db")
        case (Some e)
        then show ?thesis using assms Inr noerr code
          by (simp add: callback_post_def callback_GET_on_def io_bind_def io_lift_def
              store_call_def io_throw_def)
      next
        case None
        show ?thesis
        proof (cases "case store w sid of None \<Rightarrow> False | Some r \<Rightarrow> truthy (url r)")
          case True
          then obtain r where r: "store w sid = Some r" "truthy (url r)"
            by (cases "store w sid") simp_all
          from callback_exchange[OF Inr noerr code None r assms] show ?thesis
            using Inr noerr code None r by (simp add: callback_post_def)
        next
          case False
          then show ?thesis using assms Inr noerr code None
            by (auto simp add: callback_post_def callback_GET_on_def io_bind_def io_lift_def
                findUnique_def store_call_def redirect_to_def redirect_result_def io_return_def
                io_throw_def split: option.splits if_splits)
        qed
      qed
    qed
  qed
qed

lemma callback_GET_post:
  assumes "callback_GET ex sid q w = (res, w')"
  shows "callback_post reachable ex sid q w res w'"
  using assms callback_GET_on_post by (simp add: callback_GET_def)

section \<open>Supporting facts\<close>


text \<open>
  What the regular expression finds is a quoted parameter of the header: a capture is a
  non-empty run without quotes, between the literal and a closing quote; and a header
  with such an occurrence always yields a capture.
\<close>

lemma match_quoted_sound:
  "match_quoted lit h = Some v \<Longrightarrow>
     \<exists>pre post. h = pre @ lit @ v @ dquote # post \<and> v \<noteq> [] \<and> dquote \<notin> set v"
proof (induction h)
  case Nil
  then show ?case by simp
next
  case (Cons c cs)
  let ?rest = "drop (length lit) (c # cs)"
  let ?g = "takeWhile (\<lambda>x. x \<noteq> dquote) ?rest"
  let ?a = "dropWhile (\<lambda>x. x \<noteq> dquote) ?rest"
  show ?case
  proof (cases "prefix lit (c # cs) \<and> ?g \<noteq> [] \<and> ?a \<noteq> []")
    case True
    from True Cons.prems have v: "v = ?g" by (simp add: Let_def)
    from True have "c # cs = lit @ ?rest"
      by (metis append_take_drop_id prefix_def append_eq_conv_conj)
    moreover have "?rest = ?g @ ?a" by simp
    moreover from True have "hd ?a = dquote"
      using hd_dropWhile[of "\<lambda>x. x \<noteq> dquote" ?rest] by auto
    then have "?a = dquote # tl ?a" using True by (metis list.collapse)
    moreover have "dquote \<notin> set ?g" using set_takeWhileD by fastforce
    ultimately have "c # cs = [] @ lit @ ?g @ dquote # tl ?a \<and> ?g \<noteq> [] \<and> dquote \<notin> set ?g"
      using True by (metis append_Nil)
    then show ?thesis unfolding v by blast
  next
    case False
    with Cons.prems have "match_quoted lit cs = Some v"
      by (auto simp: Let_def split: if_splits)
    then obtain pre post where "cs = pre @ lit @ v @ dquote # post \<and> v \<noteq> [] \<and> dquote \<notin> set v"
      using Cons.IH by blast
    then have "c # cs = (c # pre) @ lit @ v @ dquote # post \<and> v \<noteq> [] \<and> dquote \<notin> set v"
      by simp
    then show ?thesis by blast
  qed
qed

lemma match_quoted_here:
  assumes "v \<noteq> []" and "dquote \<notin> set v" and "lit \<noteq> []"
  shows "match_quoted lit (lit @ v @ dquote # post) = Some v"
proof -
  from assms obtain l ls where l: "lit = l # ls" by (cases lit) auto
  have tw: "takeWhile (\<lambda>x. x \<noteq> dquote) (v @ dquote # post) = v"
    using assms by (auto simp add: takeWhile_tail)
  have dw: "dropWhile (\<lambda>x. x \<noteq> dquote) (v @ dquote # post) = dquote # post"
    using assms by (auto simp add: dropWhile_append3)
  show ?thesis using assms tw dw unfolding l by (simp add: Let_def)
qed

lemma match_quoted_complete:
  "v \<noteq> [] \<Longrightarrow> dquote \<notin> set v \<Longrightarrow> lit \<noteq> [] \<Longrightarrow>
   match_quoted lit (pre @ lit @ v @ dquote # post) \<noteq> None"
proof (induction pre)
  case Nil
  then show ?case using match_quoted_here[of v lit post] by simp
next
  case (Cons a pre)
  then show ?case by (auto simp: Let_def)
qed

text \<open>The capture is the one at the leftmost position where there is one.\<close>

lemma quoted_at_Nil [simp]: "\<not> quoted_at lit [] n v"
  by (simp add: quoted_at_def)

lemma quoted_at_Suc [simp]: "quoted_at lit (c # cs) (Suc n) v = quoted_at lit cs n v"
  by (simp add: quoted_at_def)



lemma bearer_resource_metadata:
  assumes "X \<noteq> []" and "dquote \<notin> set X"
  shows "extractResourceMetadataUrl (''Bearer resource_metadata='' @ [dquote] @ X @ [dquote]) = Some X"
proof -
  have "match_quoted (''resource_metadata='' @ [dquote])
          (''Bearer '' @ (''resource_metadata='' @ [dquote]) @ X @ dquote # []) =
        match_quoted (''resource_metadata='' @ [dquote])
          ((''resource_metadata='' @ [dquote]) @ X @ dquote # [])"
    by (simp add: dquote_def)
  also have "\<dots> = Some X"
    using assms by (intro match_quoted_here) simp_all
  finally show ?thesis by (simp add: extractResourceMetadataUrl_def)
qed

lemma toLowerCase_Bearer: "toLowerCase ''Bearer '' = ''bearer ''"
  by code_simp

lemma bearer_named: "includes_str (toLowerCase (''Bearer '' @ rest)) ''bearer''"
proof -
  have "toLowerCase (''Bearer '' @ rest) = ''bearer '' @ toLowerCase rest"
    using toLowerCase_Bearer by (simp only: toLowerCase_def map_append)
  then show ?thesis by simp
qed

lemma extends_new_events:
  "extends P w w' \<Longrightarrow> prefix (trace w) (trace w') \<and> (\<forall>ev \<in> set (drop (length (trace w)) (trace w')). P ev)"
  by (simp add: extends_def new_events_def list_all_iff)

lemma values_mem [simp]:
  "OAuthStatus_UNKNOWN \<in> OAuthStatus_values"
  "OAuthStatus_NOT_REQUIRED \<in> OAuthStatus_values"
  "OAuthStatus_REQUIRED \<in> OAuthStatus_values"
  "OAuthStatus_CONNECTED \<in> OAuthStatus_values"
  "OAuthStatus_EXPIRED \<in> OAuthStatus_values"
  by (simp_all add: OAuthStatus_values_def)

lemma check_write_status:
  "check_write c data \<Longrightarrow>
   \<forall>fu \<in> set data. case fu of Set_oauthStatus s \<Rightarrow> s \<in> OAuthStatus_values | _ \<Rightarrow> True"
  by (induction c data rule: check_write.induct) auto

lemma check_event_status_write: "check_event ex sid c ev \<Longrightarrow> status_write_ok ev"
  by (cases ev) (simp_all add: check_write_status)

lemma sdk_write_status:
  "sdk_write data \<Longrightarrow>
   \<forall>fu \<in> set data. case fu of Set_oauthStatus s \<Rightarrow> s \<in> OAuthStatus_values | _ \<Rightarrow> True"
  by (induction data rule: sdk_write.induct) auto

lemma callback_event_status_write: "callback_event sid ev \<Longrightarrow> status_write_ok ev"
proof (cases ev)
  case (Update k data)
  assume "callback_event sid ev"
  then consider "sdk_write data"
    | "data = [Set_oauthStatus OAuthStatus_CONNECTED, Set_requiresAuth True, Set_codeVerifier None]"
    | "data = [Set_oauthStatus OAuthStatus_REQUIRED]"
    using Update by auto
  then show ?thesis
  proof cases
    case 1
    then show ?thesis using Update sdk_write_status by simp
  next
    case 2
    then show ?thesis using Update by simp
  next
    case 3
    then show ?thesis using Update by simp
  qed
qed simp_all

lemma extends_status_writes:
  assumes "extends P w w'" and "\<And>ev. P ev \<Longrightarrow> status_write_ok ev"
  shows "list_all status_write_ok (new_events w w')"
  using extends_mono[OF assms] by (simp add: extends_def)

lemma statuses_okI:
  assumes ok: "statuses_ok w"
    and others: "\<forall>k. k \<noteq> sid \<longrightarrow> store w' k = store w k"
    and at: "\<And>r'. store w' sid = Some r' \<Longrightarrow> \<exists>s \<in> OAuthStatus_values. oauthStatus r' = Some s"
  shows "statuses_ok w'"
  unfolding statuses_ok_def
proof (intro allI impI)
  fix k r
  assume s: "store w' k = Some r"
  show "\<exists>s \<in> OAuthStatus_values. oauthStatus r = Some s"
  proof (cases "k = sid")
    case True
    then show ?thesis using at s by simp
  next
    case False
    then have "store w k = Some r" using others s by simp
    then show ?thesis using ok unfolding statuses_ok_def by blast
  qed
qed

lemma check_GET_statuses:
  assumes ok: "statuses_ok w"
  shows "statuses_ok (snd (check_GET ex sid w))"
proof -
  obtain res w' where run: "check_GET ex sid w = (res, w')" by (cases "check_GET ex sid w")
  note f = check_GET_frame[OF run]
  have "statuses_ok w'"
  proof (rule statuses_okI[OF ok])
    show "\<forall>k. k \<noteq> sid \<longrightarrow> store w' k = store w k" using f by simp
    fix r' assume r': "store w' sid = Some r'"
    then obtain r where r: "store w sid = Some r"
      "oauthStatus r' = oauthStatus r \<or> oauthStatus r' = Some OAuthStatus_REQUIRED \<or>
       oauthStatus r' = Some OAuthStatus_NOT_REQUIRED"
      using f by (cases "store w sid") simp_all
    have "\<exists>s \<in> OAuthStatus_values. oauthStatus r = Some s"
      using ok r(1) unfolding statuses_ok_def by blast
    then show "\<exists>s \<in> OAuthStatus_values. oauthStatus r' = Some s"
      using r(2) by auto
  qed
  then show ?thesis using run by simp
qed

lemma callback_GET_frame:
  assumes run: "callback_GET ex sid q w = (res, w')"
  shows "w' = w \<or>
         (callback_rel sid w w' \<and>
          (\<exists>r'. store w' sid = Some r' \<and>
             (oauthStatus r' = Some OAuthStatus_CONNECTED \<or> oauthStatus r' = Some OAuthStatus_REQUIRED)))"
proof -
  note post = callback_GET_post[OF run]
  show ?thesis
  proof (cases "getAppUrl (process_env ex)")
    case (Inl e)
    then show ?thesis using post by (simp add: callback_post_def)
  next
    case (Inr base)
    show ?thesis
    proof (cases "\<not> truthy (q_error q) \<and> truthy (q_code q) \<and>
        (case store w sid of None \<Rightarrow> False | Some r \<Rightarrow> truthy (url r))")
      case True
      then obtain r where r: "store w sid = Some r" "truthy (url r)"
        by (cases "store w sid") simp_all
      have e: "exchange_post reachable ex sid q base r w res w'"
        using post Inr True r by (simp add: callback_post_def)
      then obtain r' where r': "store w' sid = Some r'"
        by (cases "store w' sid") (simp_all add: exchange_post_def)
      have "oauthStatus r' = Some OAuthStatus_CONNECTED \<or> oauthStatus r' = Some OAuthStatus_REQUIRED"
        using e r' by (simp add: exchange_post_def split: if_splits)
      moreover have "callback_rel sid w w'" using e by (simp add: exchange_post_def)
      ultimately show ?thesis using r' by blast
    next
      case False
      then have "w' = w" using post Inr
        by (auto simp add: callback_post_def split: if_splits option.splits)
      then show ?thesis by simp
    qed
  qed
qed

lemma callback_GET_statuses:
  assumes ok: "statuses_ok w"
  shows "statuses_ok (snd (callback_GET ex sid q w))"
proof -
  obtain res w' where run: "callback_GET ex sid q w = (res, w')"
    by (cases "callback_GET ex sid q w")
  from callback_GET_frame[OF run] have "statuses_ok w'"
  proof
    assume "w' = w"
    then show ?thesis using ok by simp
  next
    assume a: "callback_rel sid w w' \<and>
          (\<exists>r'. store w' sid = Some r' \<and>
             (oauthStatus r' = Some OAuthStatus_CONNECTED \<or> oauthStatus r' = Some OAuthStatus_REQUIRED))"
    show ?thesis
    proof (rule statuses_okI[OF ok])
      show "\<forall>k. k \<noteq> sid \<longrightarrow> store w' k = store w k" using a by (simp add: callback_rel_def)
      fix r' assume "store w' sid = Some r'"
      then show "\<exists>s \<in> OAuthStatus_values. oauthStatus r' = Some s" using a by auto
    qed
  qed
  then show ?thesis using run by simp
qed

lemma callback_GET_writes:
  "list_all status_write_ok (new_events w (snd (callback_GET ex sid q w)))"
proof -
  obtain res w' where run: "callback_GET ex sid q w = (res, w')"
    by (cases "callback_GET ex sid q w")
  from callback_GET_frame[OF run] have "list_all status_write_ok (new_events w w')"
  proof
    assume "w' = w"
    then show ?thesis by (simp add: new_events_def)
  next
    assume "callback_rel sid w w' \<and>
          (\<exists>r'. store w' sid = Some r' \<and>
             (oauthStatus r' = Some OAuthStatus_CONNECTED \<or> oauthStatus r' = Some OAuthStatus_REQUIRED))"
    then have "extends (callback_event sid) w w'" by (simp add: callback_rel_def)
    then show ?thesis using callback_event_status_write by (rule extends_status_writes)
  qed
  then show ?thesis using run by simp
qed

lemma check_GET_writes:
  "list_all status_write_ok (new_events w (snd (check_GET ex sid w)))"
proof -
  obtain res w' where run: "check_GET ex sid w = (res, w')" by (cases "check_GET ex sid w")
  have "extends (check_event ex sid (cached_client sid w)) w w'"
    using check_GET_frame[OF run] by simp
  then have "list_all status_write_ok (new_events w w')"
    using check_event_status_write by (rule extends_status_writes)
  then show ?thesis using run by simp
qed

lemma update_status_statuses:
  assumes ok: "statuses_ok w" and s: "s \<in> OAuthStatus_values"
    and data: "\<And>r. oauthStatus (fold apply_field data r) = Some s"
  shows "statuses_ok (snd (update sid data w))"
proof (cases "store w sid")
  case None
  then show ?thesis using ok by (simp add: update_def)
next
  case (Some r)
  let ?w' = "w\<lparr>store := (store w)(sid \<mapsto> fold apply_field data r),
               trace := trace w @ [Update sid data]\<rparr>"
  have "statuses_ok ?w'"
  proof (rule statuses_okI[OF ok, of sid])
    show "\<forall>k. k \<noteq> sid \<longrightarrow> store ?w' k = store w k" by simp
    fix r' assume "store ?w' sid = Some r'"
    then have "oauthStatus r' = Some s" using data by auto
    then show "\<exists>s \<in> OAuthStatus_values. oauthStatus r' = Some s" using s by blast
  qed
  then show ?thesis using Some by (simp add: update_def)
qed

text \<open>
  The check of a server with a stored client, on the way that reaches the authorization:
  the whole run, as a function of what \<open>startAuthorization\<close> answers.
\<close>

lemmas check_run_defs =
  check_GET_def check_detect_def check_authorize_def check_client_def
  check_start_def findFirst_http_def findUnique_def update_def updateServerOAuthStatus_def
  detect_run new_URL_def discoverOAuthProtectedResourceMetadata_def
  discoverAuthorizationServerMetadata_def startAuthorization_def
  provider_clientInformation_def provider_saveCodeVerifier_def
  io_bind_def io_try_def io_return_def io_throw_def io_lift_def io_log_def Let_def

lemma check_GET_cached_run:
  assumes r: "store w sid = Some r" "type r = ''http''" "url r = Some u" "clientInfo r = Some ci"
    and nc: "\<not> (oauthStatus r = Some OAuthStatus_CONNECTED \<and> authTokens r \<noteq> None \<and>
                \<not> isTokenExpired (Date_now ex) (authTokens r))"
    and d: "fst (detectOAuthRequirement ex u w) = Inr d" "d_requiresAuth d"
    and v: "URL_valid ex u"
    and rm: "resource_metadata_outcome ex u
               (if truthy (d_resourceMetadataUrl d) then d_resourceMetadataUrl d else None) =
             Inr (Some rm)" "authorization_servers rm = Some (a # rest)"
    and md: "as_metadata_outcome ex a = Inr (Some md)"
    and base: "getAppUrl (process_env ex) = Inr base"
  shows "check_GET ex sid w =
     (let pre = (if oauthStatus r = Some OAuthStatus_CONNECTED \<and> authTokens r \<noteq> None
                 then [Update sid [Set_oauthStatus OAuthStatus_EXPIRED]] else []) @
                [Fetch u, Update sid [Set_oauthStatus OAuthStatus_REQUIRED],
                 DiscoverProtectedResource u
                   (if truthy (d_resourceMetadataUrl d) then d_resourceMetadataUrl d else None),
                 DiscoverAuthorizationServer a, StartAuthorization a ci]
      in case startAuthorization_outcome ex a md ci (base @ ''/api/oauth/callback/'' @ sid) of
           Inl e \<Rightarrow>
             (Inr (required_response sid None
                     (Some (case e of JsError m \<Rightarrow> m | NonError \<Rightarrow> msg_generic_failure))),
              w\<lparr>store := (store w)(sid \<mapsto> r\<lparr>oauthStatus := Some OAuthStatus_REQUIRED\<rparr>),
                trace := trace w @ pre\<rparr>)
         | Inr (au, ver) \<Rightarrow>
             (Inr (required_response sid (Some au) None),
              w\<lparr>store := (store w)(sid \<mapsto> r\<lparr>oauthStatus := Some OAuthStatus_REQUIRED,
                                               codeVerifier := Some ver\<rparr>),
                trace := trace w @ pre @ [Update sid [Set_codeVerifier (Some ver)]]\<rparr>))"
proof -
  have c: "classify (fetch_outcome ex u) = d" using d(1) by (simp add: detect_run)
  have g: "provider_redirectUrl (process_env ex) \<lparr>serverId = sid, serverName = name r\<rparr> =
      Inr (base @ ''/api/oauth/callback/'' @ sid)"
    using base by (simp add: provider_redirectUrl_def)
  consider (expired) t where "oauthStatus r = Some OAuthStatus_CONNECTED" "authTokens r = Some t"
        "isTokenExpired (Date_now ex) (Some t)"
    | (other) "oauthStatus r \<noteq> Some OAuthStatus_CONNECTED"
    | (no_tokens) "authTokens r = None"
    using nc by (cases "authTokens r") auto
  then show ?thesis
  proof cases
    case expired
    show ?thesis
    proof (cases "startAuthorization_outcome ex a md ci (base @ ''/api/oauth/callback/'' @ sid)")
      case (Inl e)
      show ?thesis using r expired c d(2) v rm md g Inl
        by (simp add: check_run_defs)
    next
      case (Inr p)
      obtain au ver where p: "p = (au, ver)" by (cases p)
      show ?thesis using r expired c d(2) v rm md g Inr p
        by (simp add: check_run_defs)
    qed
  next
    case other
    show ?thesis
    proof (cases "startAuthorization_outcome ex a md ci (base @ ''/api/oauth/callback/'' @ sid)")
      case (Inl e)
      show ?thesis using r other c d(2) v rm md g Inl
        by (simp add: check_run_defs)
    next
      case (Inr p)
      obtain au ver where p: "p = (au, ver)" by (cases p)
      show ?thesis using r other c d(2) v rm md g Inr p
        by (simp add: check_run_defs)
    qed
  next
    case no_tokens
    show ?thesis
    proof (cases "startAuthorization_outcome ex a md ci (base @ ''/api/oauth/callback/'' @ sid)")
      case (Inl e)
      show ?thesis using r no_tokens c d(2) v rm md g Inl
        by (simp add: check_run_defs)
    next
      case (Inr p)
      obtain au ver where p: "p = (au, ver)" by (cases p)
      show ?thesis using r no_tokens c d(2) v rm md g Inr p
        by (simp add: check_run_defs)
    qed
  qed
qed

section \<open>The example deployment, run\<close>

lemmas run_defs =
  check_GET_def check_detect_def check_authorize_def check_client_def check_start_def
  findFirst_http_def findUnique_def update_def updateServerOAuthStatus_def
  detect_run new_URL_def discoverOAuthProtectedResourceMetadata_def
  discoverAuthorizationServerMetadata_def registerClient_def startAuthorization_def
  provider_clientInformation_def provider_clientMetadata_def provider_redirectUrl_def
  provider_saveClientInformation_def provider_saveCodeVerifier_def
  io_bind_def io_try_def io_return_def io_throw_def io_lift_def io_log_def
  required_response_def getAppUrl_def truthy_def Let_def

lemma example_header_bearer: "includes_str (toLowerCase example_header) ''bearer''"
  unfolding example_header_def
  using bearer_named[of "''resource_metadata='' @ [dquote] @ ''https://mcp.example/meta'' @ [dquote]"]
  by simp

lemma example_header_url:
  "extractResourceMetadataUrl example_header = Some ''https://mcp.example/meta''"
  unfolding example_header_def by (rule bearer_resource_metadata) (simp_all add: dquote_def)

lemma example_classify:
  "classify (Responded \<lparr>status = 401, WWW_Authenticate = Some example_header\<rparr>) =
     \<lparr>d_requiresAuth = True, d_resourceMetadataUrl = Some ''https://mcp.example/meta'',
      d_error = None\<rparr>"
proof -
  have "example_header \<noteq> []" by (simp add: example_header_def)
  then show ?thesis by (simp add: classify_def example_header_bearer example_header_url)
qed





text \<open>The first check of a fresh server registers a client and starts the authorization.\<close>

lemma first_check:
  "check_GET example_externals ''s1'' example_world =
     (Inr (required_response ''s1'' (Some ''https://as.example/authorize?c=1'') None),
      \<lparr>store = [''s1'' \<mapsto> example_server\<lparr>clientInfo := Some example_client,
                                           codeVerifier := Some ''verifier-1'',
                                           oauthStatus := Some ''REQUIRED''\<rparr>],
       trace = [Fetch ''https://mcp.example/mcp'',
                Update ''s1'' [Set_oauthStatus ''REQUIRED''],
                DiscoverProtectedResource ''https://mcp.example/mcp'' (Some ''https://mcp.example/meta''),
                DiscoverAuthorizationServer ''https://as.example'',
                RegisterClient ''https://as.example'',
                Update ''s1'' [Set_clientInfo example_client],
                StartAuthorization ''https://as.example'' example_client,
                Update ''s1'' [Set_codeVerifier (Some ''verifier-1'')]]\<rparr>)"
  by (simp add: run_defs example_externals_def example_world_def example_server_def
      example_classify example_metadata_def OAuthStatus_REQUIRED_def OAuthStatus_CONNECTED_def)

text \<open>The check of a connected server, before and after the tokens enter the buffer.\<close>

lemma connected_check:
  "check_GET example_externals ''s1'' connected_world =
     (Inr \<lparr>http_status = 200,
            body = \<lparr>r_serverId = ''s1'', r_requiresAuth = True, r_connected = True,
                     r_oauthStatus = ''CONNECTED'', r_authorizationUrl = None, r_error = None\<rparr>\<rparr>,
      connected_world)"
  by (simp add: run_defs example_externals_def connected_world_def example_server_def
      isTokenExpired_def OAuthStatus_CONNECTED_def)

lemma later_check:
  "check_GET later_externals ''s1'' connected_world =
     (Inr \<lparr>http_status = 200,
            body = \<lparr>r_serverId = ''s1'', r_requiresAuth = True, r_connected = False,
                     r_oauthStatus = ''REQUIRED'',
                     r_authorizationUrl = Some ''https://as.example/authorize?c=1'',
                     r_error = None\<rparr>\<rparr>,
      \<lparr>store = [''s1'' \<mapsto> example_server\<lparr>requiresAuth := Some True,
                                           clientInfo := Some example_client,
                                           authTokens := Some \<lparr>access_token = ''token-1'',
                                                                 expires_at = Some 1700000090\<rparr>,
                                           codeVerifier := Some ''verifier-1'',
                                           oauthStatus := Some ''REQUIRED''\<rparr>],
       trace = [Update ''s1'' [Set_oauthStatus ''EXPIRED''],
                Fetch ''https://mcp.example/mcp'',
                Update ''s1'' [Set_oauthStatus ''REQUIRED''],
                DiscoverProtectedResource ''https://mcp.example/mcp'' (Some ''https://mcp.example/meta''),
                DiscoverAuthorizationServer ''https://as.example'',
                StartAuthorization ''https://as.example'' example_client,
                Update ''s1'' [Set_codeVerifier (Some ''verifier-1'')]]\<rparr>)"
  by (simp add: run_defs later_externals_def example_externals_def connected_world_def
      example_server_def example_classify example_metadata_def isTokenExpired_def
      OAuthStatus_REQUIRED_def OAuthStatus_CONNECTED_def OAuthStatus_EXPIRED_def)

text \<open>With the base URL unset the check still probes and discovers, then answers with the error.\<close>

lemma unconfigured_check:
  "check_GET unconfigured_externals ''s1'' example_world =
     (Inr (required_response ''s1'' None (Some misconfiguration_message)),
      \<lparr>store = [''s1'' \<mapsto> example_server\<lparr>oauthStatus := Some ''REQUIRED''\<rparr>],
       trace = [Fetch ''https://mcp.example/mcp'',
                Update ''s1'' [Set_oauthStatus ''REQUIRED''],
                DiscoverProtectedResource ''https://mcp.example/mcp'' (Some ''https://mcp.example/meta''),
                DiscoverAuthorizationServer ''https://as.example'']\<rparr>)"
  by (simp add: run_defs unconfigured_externals_def example_externals_def example_world_def
      example_server_def example_classify example_metadata_def OAuthStatus_REQUIRED_def
      OAuthStatus_CONNECTED_def)

lemmas callback_run_defs =
  callback_GET_def callback_GET_on_def store_call_def reachable_def encodeURIComponent_def
  transport_finishAuth_def sdk_exchange_def redirect_to_def
  findUnique_def update_def new_URL_def
  provider_clientInformation_def provider_codeVerifier_def provider_saveTokens_def
  io_bind_def io_try_def io_return_def io_throw_def io_lift_def io_log_def io_outcome_def
  getAppUrl_def truthy_def Let_def



lemma encode_invalid_grant:
  "\<not> lone_surrogate ''invalid_grant''" "percent_encode ''invalid_grant'' = ''invalid_grant''"
  by code_simp+



text \<open>The token endpoint rejects the code: status REQUIRED, and the verifier is still stored.\<close>

lemma rejected_callback:
  "callback_GET rejecting_externals ''s1''
     \<lparr>q_code = Some ''code-1'', q_error = None, q_error_description = None\<rparr> pending_world =
   (Inr (Redirect ''/?oauth_error=invalid_grant'' ''https://app.example''),
    \<lparr>store = [''s1'' \<mapsto> example_server\<lparr>clientInfo := Some example_client,
                                         codeVerifier := Some ''verifier-1'',
                                         oauthStatus := Some ''REQUIRED''\<rparr>],
     trace = [FinishAuth ''code-1'', Update ''s1'' [Set_oauthStatus ''REQUIRED'']]\<rparr>)"
  by (simp add: callback_run_defs rejecting_externals_def example_externals_def pending_world_def
      example_server_def encode_invalid_grant)







text \<open>The second check of the server, after it stopped asking for a token.\<close>

lemma open_check:
  "fst (check_GET open_externals ''s1'' (snd (check_GET example_externals ''s1'' example_world))) =
     Inr \<lparr>http_status = 200,
           body = \<lparr>r_serverId = ''s1'', r_requiresAuth = False, r_connected = False,
                    r_oauthStatus = ''NOT_REQUIRED'', r_authorizationUrl = None,
                    r_error = None\<rparr>\<rparr>"
  by (simp add: first_check)
    (simp add: run_defs open_externals_def example_externals_def example_server_def
      classify_def OAuthStatus_NOT_REQUIRED_def OAuthStatus_CONNECTED_def)

section \<open>Detection\<close>




text \<open>
  C4. The probe function always returns. On any response other than a 401, and when the
  probe itself fails, it reports that no auth is required; in the second case the error
  field carries the failure's message (or \<open>Unknown error\<close> when the thrown value is not
  an \<open>Error\<close>).
\<close>

theorem detectOAuthRequirement_advisory:
  "(\<exists>d. fst (detectOAuthRequirement ex u w) = Inr d) \<and>
   (fetch_outcome ex u = Responded r \<and> status r \<noteq> 401 \<longrightarrow>
      fst (detectOAuthRequirement ex u w) =
        Inr \<lparr>d_requiresAuth = False, d_resourceMetadataUrl = None, d_error = None\<rparr>) \<and>
   (fetch_outcome ex u = Rejected (JsError m) \<longrightarrow>
      fst (detectOAuthRequirement ex u w) =
        Inr \<lparr>d_requiresAuth = False, d_resourceMetadataUrl = None, d_error = Some m\<rparr>) \<and>
   (fetch_outcome ex u = Rejected NonError \<longrightarrow>
      fst (detectOAuthRequirement ex u w) =
        Inr \<lparr>d_requiresAuth = False, d_resourceMetadataUrl = None,
             d_error = Some ''Unknown error''\<rparr>)"
  by (simp add: detect_run classify_def)

theorem detectOAuthRequirement_advisory_witness:
  "fetch_outcome unreachable_externals ''https://mcp.example/mcp'' =
     Rejected (JsError ''connect ECONNREFUSED'') \<and>
   fst (detectOAuthRequirement unreachable_externals ''https://mcp.example/mcp'' example_world) =
     Inr \<lparr>d_requiresAuth = False, d_resourceMetadataUrl = None,
          d_error = Some ''connect ECONNREFUSED''\<rparr>"
proof -
  have h: "fetch_outcome unreachable_externals ''https://mcp.example/mcp'' =
      Rejected (JsError ''connect ECONNREFUSED'')"
    by (simp add: unreachable_externals_def)
  from detectOAuthRequirement_advisory[of unreachable_externals "''https://mcp.example/mcp''"
      example_world undefined "''connect ECONNREFUSED''"]
  show ?thesis using h by simp
qed

section \<open>Token expiry\<close>

text \<open>
  C5, as stated, fails for a bundle whose \<open>expires_at\<close> is the number 0: the test
  \<open>!tokens.expires_at\<close> takes it for a missing expiry, although the current time is
  past \<open>0 - 60\<close>.
\<close>

theorem isTokenExpired_zero_counterexample:
  "\<not> (isTokenExpired 1000 (Some \<lparr>access_token = ''t'', expires_at = Some 0\<rparr>) =
        ((of_int 1000 :: rat) / 1000 > of_int 0 - 60))"
  by (simp add: isTokenExpired_def)

text \<open>
  C5, amended. A missing bundle, a bundle without \<open>expires_at\<close> and a bundle whose
  \<open>expires_at\<close> is 0 are valid. Any other bundle is expired exactly when the current
  time in seconds exceeds \<open>expires_at - 60\<close>, that is, when the clock in milliseconds
  exceeds \<open>1000 * (expires_at - 60)\<close>.
\<close>

theorem isTokenExpired_buffer:
  "\<not> isTokenExpired now None \<and>
   (expires_at t = None \<longrightarrow> \<not> isTokenExpired now (Some t)) \<and>
   (expires_at t = Some 0 \<longrightarrow> \<not> isTokenExpired now (Some t)) \<and>
   (expires_at t = Some e \<and> e \<noteq> 0 \<longrightarrow>
      isTokenExpired now (Some t) = ((of_int now :: rat) / 1000 > of_int e - 60) \<and>
      isTokenExpired now (Some t) = (now > 1000 * (e - 60)))"
proof -
  have "((of_int now :: rat) / 1000 > of_int e - 60) = (now > 1000 * (e - 60))"
  proof -
    have "((of_int now :: rat) / 1000 > of_int e - 60) =
          ((of_int now :: rat) > (of_int e - 60) * 1000)"
      by (simp add: pos_less_divide_eq)
    also have "\<dots> = ((of_int now :: rat) > of_int ((e - 60) * 1000))" by simp
    also have "\<dots> = (now > (e - 60) * 1000)" by (simp only: of_int_less_iff)
    finally show ?thesis by (simp add: mult.commute)
  qed
  then show ?thesis by (auto simp add: isTokenExpired_def)
qed

theorem isTokenExpired_buffer_witness:
  "expires_at \<lparr>access_token = ''t'', expires_at = Some 1699999999\<rparr> = Some 1699999999 \<and>
   (1699999999 :: int) \<noteq> 0 \<and>
   isTokenExpired 1700000000000 (Some \<lparr>access_token = ''t'', expires_at = Some 1699999999\<rparr>) \<and>
   \<not> isTokenExpired 1700000000000 (Some \<lparr>access_token = ''t'', expires_at = Some 1700000120\<rparr>)"
  using isTokenExpired_buffer[of 1700000000000 "\<lparr>access_token = ''t'', expires_at = Some 1699999999\<rparr>" 1699999999]
    isTokenExpired_buffer[of 1700000000000 "\<lparr>access_token = ''t'', expires_at = Some 1700000120\<rparr>" 1700000120]
  by simp

section \<open>The check route\<close>

text \<open>
  C10. When the id names no stored server of type \<open>http\<close> with a URL, the check route
  answers 404 with \<open>requiresAuth = false\<close>, \<open>connected = false\<close>, status
  \<open>NOT_REQUIRED\<close> and the error \<open>HTTP server not found\<close>; no record is touched and no
  call is made.
\<close>

theorem check_GET_not_found:
  "(case store w sid of None \<Rightarrow> True | Some r \<Rightarrow> type r \<noteq> ''http'' \<or> url r = None) \<longrightarrow>
   check_GET ex sid w =
     (Inr \<lparr>http_status = 404,
           body = \<lparr>r_serverId = sid, r_requiresAuth = False, r_connected = False,
                    r_oauthStatus = ''NOT_REQUIRED'',
                    r_authorizationUrl = None, r_error = Some ''HTTP server not found''\<rparr>\<rparr>, w)"
  by (auto simp add: check_GET_def findFirst_http_def io_bind_def io_return_def
      OAuthStatus_NOT_REQUIRED_def msg_not_found_def split: option.splits)

theorem check_GET_not_found_witness:
  "(case store example_world ''s2'' of None \<Rightarrow> True | Some r \<Rightarrow> type r \<noteq> ''http'' \<or> url r = None) \<and>
   check_GET example_externals ''s2'' example_world =
     (Inr \<lparr>http_status = 404,
           body = \<lparr>r_serverId = ''s2'', r_requiresAuth = False, r_connected = False,
                    r_oauthStatus = ''NOT_REQUIRED'',
                    r_authorizationUrl = None, r_error = Some ''HTTP server not found''\<rparr>\<rparr>,
      example_world)"
proof -
  have h: "(case store example_world ''s2'' of None \<Rightarrow> True | Some r \<Rightarrow> type r \<noteq> ''http'' \<or> url r = None)"
    by (simp add: example_world_def)
  from check_GET_not_found[of example_world "''s2''" example_externals] h
  show ?thesis by blast
qed

text \<open>
  C9. The check route always answers, and never with the status EXPIRED: the status of
  the response is CONNECTED (only for a server stored as CONNECTED whose tokens are not
  expired), NOT_REQUIRED or REQUIRED. For a server stored as CONNECTED whose tokens are
  expired the route first writes EXPIRED, then probes, then writes the detected
  status, which is the status of the response and the status left in the store.
\<close>

theorem check_GET_never_expired:
  "(\<exists>resp. fst (check_GET ex sid w) = Inr resp \<and>
      r_oauthStatus (body resp) \<in>
        {OAuthStatus_CONNECTED, OAuthStatus_NOT_REQUIRED, OAuthStatus_REQUIRED} \<and>
      r_oauthStatus (body resp) \<noteq> OAuthStatus_EXPIRED \<and>
      (r_oauthStatus (body resp) = OAuthStatus_CONNECTED \<longrightarrow>
         (\<exists>r. store w sid = Some r \<and> oauthStatus r = Some OAuthStatus_CONNECTED \<and>
              authTokens r \<noteq> None \<and> \<not> isTokenExpired (Date_now ex) (authTokens r)))) \<and>
   (store w sid = Some r \<and> type r = ''http'' \<and> url r = Some u \<and>
    oauthStatus r = Some OAuthStatus_CONNECTED \<and> authTokens r = Some t \<and>
    isTokenExpired (Date_now ex) (Some t) \<longrightarrow>
      (\<exists>resp st r' rest.
         st \<in> {OAuthStatus_NOT_REQUIRED, OAuthStatus_REQUIRED} \<and>
         fst (check_GET ex sid w) = Inr resp \<and> r_oauthStatus (body resp) = st \<and>
         trace (snd (check_GET ex sid w)) =
           trace w @ [Update sid [Set_oauthStatus OAuthStatus_EXPIRED], Fetch u,
                      Update sid [Set_oauthStatus st]] @ rest \<and>
         store (snd (check_GET ex sid w)) sid = Some r' \<and> oauthStatus r' = Some st))"
proof -
  obtain res w' where run: "check_GET ex sid w = (res, w')" by (cases "check_GET ex sid w")
  have A: "\<exists>resp. res = Inr resp \<and>
      r_oauthStatus (body resp) \<in>
        {OAuthStatus_CONNECTED, OAuthStatus_NOT_REQUIRED, OAuthStatus_REQUIRED} \<and>
      r_oauthStatus (body resp) \<noteq> OAuthStatus_EXPIRED \<and>
      (r_oauthStatus (body resp) = OAuthStatus_CONNECTED \<longrightarrow>
         (\<exists>r. store w sid = Some r \<and> oauthStatus r = Some OAuthStatus_CONNECTED \<and>
              authTokens r \<noteq> None \<and> \<not> isTokenExpired (Date_now ex) (authTokens r)))"
    using run
  proof (cases rule: check_GET_cases)
    case not_found
    then show ?thesis by simp
  next
    case (connected r0)
    then show ?thesis using found_http_store[OF connected(1)]
      by (simp add: connected_valid_def)
  next
    case (detected r0 u0 resp r' rest)
    then show ?thesis using detected_status_cases[of ex u0] by auto
  qed
  have B: "\<exists>resp st r' rest.
         st \<in> {OAuthStatus_NOT_REQUIRED, OAuthStatus_REQUIRED} \<and>
         res = Inr resp \<and> r_oauthStatus (body resp) = st \<and>
         trace w' =
           trace w @ [Update sid [Set_oauthStatus OAuthStatus_EXPIRED], Fetch u,
                      Update sid [Set_oauthStatus st]] @ rest \<and>
         store w' sid = Some r' \<and> oauthStatus r' = Some st"
    if h: "store w sid = Some r \<and> type r = ''http'' \<and> url r = Some u \<and>
      oauthStatus r = Some OAuthStatus_CONNECTED \<and> authTokens r = Some t \<and>
      isTokenExpired (Date_now ex) (Some t)"
  proof -
    have found: "found_http sid w = Some r" using h by (simp add: found_http_def)
    have e: "connected_expired ex r" "\<not> connected_valid ex r"
      using h by (simp_all add: connected_expired_def connected_valid_def)
    show ?thesis using run
    proof (cases rule: check_GET_cases)
      case not_found
      then show ?thesis using found by simp
    next
      case (connected r0)
      then show ?thesis using found e by simp
    next
      case (detected r0 u0 resp r' rest)
      then have eq: "r0 = r" "u0 = u" using found h by simp_all
      have "oauthStatus r' = Some (detected_status ex u)"
        using detected(8) eq by (simp add: same_core_def)
      moreover have "trace w' =
           trace w @ [Update sid [Set_oauthStatus OAuthStatus_EXPIRED], Fetch u,
                      Update sid [Set_oauthStatus (detected_status ex u)]] @ rest"
        using detected(10) eq e by simp
      moreover have "detected_status ex u \<in> {OAuthStatus_NOT_REQUIRED, OAuthStatus_REQUIRED}"
        using detected_status_cases[of ex u] by auto
      ultimately show ?thesis using detected(4,6,7) eq by blast
    qed
  qed
  show ?thesis using A B run by simp
qed

theorem check_GET_never_expired_witness:
  "store stale_world ''s1'' =
     Some (example_server\<lparr>clientInfo := Some example_client,
                          authTokens := Some \<lparr>access_token = ''token-0'', expires_at = Some 1699999999\<rparr>,
                          oauthStatus := Some ''CONNECTED''\<rparr>) \<and>
   isTokenExpired (Date_now example_externals)
     (Some \<lparr>access_token = ''token-0'', expires_at = Some 1699999999\<rparr>) \<and>
   (\<exists>resp st r' rest.
         st \<in> {OAuthStatus_NOT_REQUIRED, OAuthStatus_REQUIRED} \<and>
         fst (check_GET example_externals ''s1'' stale_world) = Inr resp \<and>
         r_oauthStatus (body resp) = st \<and>
         trace (snd (check_GET example_externals ''s1'' stale_world)) =
           trace stale_world @
             [Update ''s1'' [Set_oauthStatus OAuthStatus_EXPIRED], Fetch ''https://mcp.example/mcp'',
              Update ''s1'' [Set_oauthStatus st]] @ rest \<and>
         store (snd (check_GET example_externals ''s1'' stale_world)) ''s1'' = Some r' \<and>
         oauthStatus r' = Some st)"
proof -
  let ?t = "\<lparr>access_token = ''token-0'', expires_at = Some 1699999999\<rparr>"
  let ?r = "example_server\<lparr>clientInfo := Some example_client, authTokens := Some ?t,
                           oauthStatus := Some ''CONNECTED''\<rparr>"
  have s: "store stale_world ''s1'' = Some ?r" by (simp add: stale_world_def)
  have e: "isTokenExpired (Date_now example_externals) (Some ?t)"
    by (simp add: example_externals_def isTokenExpired_def)
  have h: "store stale_world ''s1'' = Some ?r \<and> type ?r = ''http'' \<and>
      url ?r = Some ''https://mcp.example/mcp'' \<and>
      oauthStatus ?r = Some OAuthStatus_CONNECTED \<and> authTokens ?r = Some ?t \<and>
      isTokenExpired (Date_now example_externals) (Some ?t)"
    using s e by (simp add: example_server_def OAuthStatus_CONNECTED_def)
  from check_GET_never_expired[of example_externals "''s1''" stale_world ?r
      "''https://mcp.example/mcp''" ?t]
  have "store stale_world ''s1'' = Some ?r \<and> type ?r = ''http'' \<and>
      url ?r = Some ''https://mcp.example/mcp'' \<and>
      oauthStatus ?r = Some OAuthStatus_CONNECTED \<and> authTokens ?r = Some ?t \<and>
      isTokenExpired (Date_now example_externals) (Some ?t) \<longrightarrow>
      (\<exists>resp st r' rest.
         st \<in> {OAuthStatus_NOT_REQUIRED, OAuthStatus_REQUIRED} \<and>
         fst (check_GET example_externals ''s1'' stale_world) = Inr resp \<and>
         r_oauthStatus (body resp) = st \<and>
         trace (snd (check_GET example_externals ''s1'' stale_world)) =
           trace stale_world @
             [Update ''s1'' [Set_oauthStatus OAuthStatus_EXPIRED], Fetch ''https://mcp.example/mcp'',
              Update ''s1'' [Set_oauthStatus st]] @ rest \<and>
         store (snd (check_GET example_externals ''s1'' stale_world)) ''s1'' = Some r' \<and>
         oauthStatus r' = Some st)"
    by (rule conjunct2)
  from this[rule_format, OF h] s e show ?thesis by (intro conjI)
qed

text \<open>
  C6, as stated, fails when time passes between the two checks. A server is stored as
  CONNECTED, with a client, and its tokens run out in 90 seconds: the first check
  answers CONNECTED and changes nothing; one minute later, with no callback in between
  and the same answer to the probe, the tokens are inside the buffer and the second
  check answers REQUIRED. It also fails when the resource server changes its answer to
  the probe between the two checks: REQUIRED, then NOT_REQUIRED.
\<close>

theorem check_GET_clock_counterexample:
  "cached_client ''s1'' connected_world = Some example_client \<and>
   check_GET example_externals ''s1'' connected_world =
     (Inr \<lparr>http_status = 200,
            body = \<lparr>r_serverId = ''s1'', r_requiresAuth = True, r_connected = True,
                     r_oauthStatus = ''CONNECTED'', r_authorizationUrl = None, r_error = None\<rparr>\<rparr>,
      connected_world) \<and>
   fetch_outcome later_externals = fetch_outcome example_externals \<and>
   Date_now later_externals = Date_now example_externals + 60000 \<and>
   fst (check_GET later_externals ''s1'' connected_world) =
     Inr \<lparr>http_status = 200,
           body = \<lparr>r_serverId = ''s1'', r_requiresAuth = True, r_connected = False,
                    r_oauthStatus = ''REQUIRED'',
                    r_authorizationUrl = Some ''https://as.example/authorize?c=1'',
                    r_error = None\<rparr>\<rparr> \<and>
   fst (check_GET example_externals ''s1'' example_world) =
     Inr \<lparr>http_status = 200,
           body = \<lparr>r_serverId = ''s1'', r_requiresAuth = True, r_connected = False,
                    r_oauthStatus = ''REQUIRED'',
                    r_authorizationUrl = Some ''https://as.example/authorize?c=1'',
                    r_error = None\<rparr>\<rparr> \<and>
   cached_client ''s1'' (snd (check_GET example_externals ''s1'' example_world)) =
     Some example_client \<and>
   fst (check_GET open_externals ''s1'' (snd (check_GET example_externals ''s1'' example_world))) =
     Inr \<lparr>http_status = 200,
           body = \<lparr>r_serverId = ''s1'', r_requiresAuth = False, r_connected = False,
                    r_oauthStatus = ''NOT_REQUIRED'', r_authorizationUrl = None,
                    r_error = None\<rparr>\<rparr>"
proof -
  have a: "cached_client ''s1'' connected_world = Some example_client"
    by (simp add: cached_client_def connected_world_def)
  have b: "fetch_outcome later_externals = fetch_outcome example_externals"
    and c: "Date_now later_externals = Date_now example_externals + 60000"
    by (simp_all add: later_externals_def example_externals_def)
  have d: "fst (check_GET later_externals ''s1'' connected_world) =
     Inr \<lparr>http_status = 200,
           body = \<lparr>r_serverId = ''s1'', r_requiresAuth = True, r_connected = False,
                    r_oauthStatus = ''REQUIRED'',
                    r_authorizationUrl = Some ''https://as.example/authorize?c=1'',
                    r_error = None\<rparr>\<rparr>"
    by (simp add: later_check)
  have e: "fst (check_GET example_externals ''s1'' example_world) =
     Inr \<lparr>http_status = 200,
           body = \<lparr>r_serverId = ''s1'', r_requiresAuth = True, r_connected = False,
                    r_oauthStatus = ''REQUIRED'',
                    r_authorizationUrl = Some ''https://as.example/authorize?c=1'',
                    r_error = None\<rparr>\<rparr>"
    by (simp add: first_check required_response_def OAuthStatus_REQUIRED_def)
  have f: "cached_client ''s1'' (snd (check_GET example_externals ''s1'' example_world)) =
      Some example_client"
    by (simp add: first_check cached_client_def)
  show ?thesis using a connected_check b c d e f open_check by (intro conjI)
qed

text \<open>
  C6, amended. Take two checks in a row with no callback in between. If the probe has
  the same outcome for both and the stored tokens are on the same side of the expiry
  test at both, then both answer, and with the same status. If a client is stored when
  the second check starts, it is still stored afterwards, and the second check makes no
  registration call, saves no client, and starts no authorization with another client.
  And the stored client is used: when the second check gets as far as the authorization
  (the server is not answered as CONNECTED, the probe asks for authorization, the
  server's URL parses, discovery gives an authorization server and its metadata, the
  base URL is available), it calls \<open>startAuthorization\<close> with the stored client, and when
  that call returns it answers with the URL returned and stores the verifier returned.
\<close>

theorem check_GET_idempotent:
  "check_GET ex sid w = (res1, w1) \<and> check_GET ex2 sid w1 = (res2, w2) \<longrightarrow>
     (fetch_outcome ex2 = fetch_outcome ex \<and>
      isTokenExpired (Date_now ex2) (stored_tokens sid w) =
        isTokenExpired (Date_now ex) (stored_tokens sid w) \<longrightarrow>
        (\<exists>b1 b2. res1 = Inr b1 \<and> res2 = Inr b2 \<and>
           r_oauthStatus (body b2) = r_oauthStatus (body b1))) \<and>
     (\<forall>c. cached_client sid w1 = Some c \<longrightarrow>
        cached_client sid w2 = Some c \<and> prefix (trace w1) (trace w2) \<and>
        (\<forall>ev \<in> set (drop (length (trace w1)) (trace w2)).
           (\<forall>a. ev \<noteq> RegisterClient a) \<and>
           (\<forall>c'. ev \<noteq> Update sid [Set_clientInfo c']) \<and>
           (\<forall>a c'. ev = StartAuthorization a c' \<longrightarrow> c' = c))) \<and>
     (store w1 sid = Some r1 \<and> type r1 = ''http'' \<and> url r1 = Some u \<and> clientInfo r1 = Some ci \<and>
      \<not> (oauthStatus r1 = Some OAuthStatus_CONNECTED \<and> authTokens r1 \<noteq> None \<and>
         \<not> isTokenExpired (Date_now ex2) (authTokens r1)) \<and>
      fst (detectOAuthRequirement ex2 u w1) = Inr d \<and> d_requiresAuth d \<and> URL_valid ex2 u \<and>
      resource_metadata_outcome ex2 u
        (if truthy (d_resourceMetadataUrl d) then d_resourceMetadataUrl d else None) =
        Inr (Some rm) \<and>
      authorization_servers rm = Some (a # rest) \<and> as_metadata_outcome ex2 a = Inr (Some md) \<and>
      getAppUrl (process_env ex2) = Inr base \<longrightarrow>
        StartAuthorization a ci \<in> set (drop (length (trace w1)) (trace w2)) \<and>
        (\<forall>au ver.
           startAuthorization_outcome ex2 a md ci (base @ ''/api/oauth/callback/'' @ sid) =
             Inr (au, ver) \<longrightarrow>
           res2 = Inr (required_response sid (Some au) None) \<and>
           (\<exists>r2. store w2 sid = Some r2 \<and> clientInfo r2 = Some ci \<and> codeVerifier r2 = Some ver)))"
proof (intro impI)
  assume h: "check_GET ex sid w = (res1, w1) \<and> check_GET ex2 sid w1 = (res2, w2)"
  then have run1: "check_GET ex sid w = (res1, w1)" and run2: "check_GET ex2 sid w1 = (res2, w2)"
    by simp_all
  have A: "\<exists>b1 b2. res1 = Inr b1 \<and> res2 = Inr b2 \<and>
        r_oauthStatus (body b2) = r_oauthStatus (body b1)"
    if same: "fetch_outcome ex2 = fetch_outcome ex \<and>
      isTokenExpired (Date_now ex2) (stored_tokens sid w) =
        isTokenExpired (Date_now ex) (stored_tokens sid w)"
  proof -
    obtain b1 where b1: "res1 = Inr b1" "r_oauthStatus (body b1) = check_status ex sid w"
      using check_GET_status[OF run1] by blast
    obtain b2 where b2: "res2 = Inr b2" "r_oauthStatus (body b2) = check_status ex2 sid w1"
      using check_GET_status[OF run2] by blast
    from same have "check_status ex2 sid w1 = check_status ex sid w"
      using check_GET_status_again[OF run1] by blast
    then show ?thesis using b1 b2 by simp
  qed
  have B: "cached_client sid w2 = Some c \<and> prefix (trace w1) (trace w2) \<and>
        (\<forall>ev \<in> set (drop (length (trace w1)) (trace w2)).
           (\<forall>a. ev \<noteq> RegisterClient a) \<and>
           (\<forall>c'. ev \<noteq> Update sid [Set_clientInfo c']) \<and>
           (\<forall>a c'. ev = StartAuthorization a c' \<longrightarrow> c' = c))"
    if c: "cached_client sid w1 = Some c" for c
  proof -
    note f = check_GET_frame[OF run2]
    have ext: "extends (check_event ex2 sid (Some c)) w1 w2" using f c by simp
    have "\<And>ev. check_event ex2 sid (Some c) ev \<Longrightarrow>
           (\<forall>a. ev \<noteq> RegisterClient a) \<and>
           (\<forall>c'. ev \<noteq> Update sid [Set_clientInfo c']) \<and>
           (\<forall>a c'. ev = StartAuthorization a c' \<longrightarrow> c' = c)"
      by auto
    then show ?thesis using extends_new_events[OF ext] f c by auto
  qed
  have C: "StartAuthorization a ci \<in> set (drop (length (trace w1)) (trace w2)) \<and>
        (\<forall>au ver.
           startAuthorization_outcome ex2 a md ci (base @ ''/api/oauth/callback/'' @ sid) =
             Inr (au, ver) \<longrightarrow>
           res2 = Inr (required_response sid (Some au) None) \<and>
           (\<exists>r2. store w2 sid = Some r2 \<and> clientInfo r2 = Some ci \<and> codeVerifier r2 = Some ver))"
    if p: "store w1 sid = Some r1 \<and> type r1 = ''http'' \<and> url r1 = Some u \<and> clientInfo r1 = Some ci \<and>
      \<not> (oauthStatus r1 = Some OAuthStatus_CONNECTED \<and> authTokens r1 \<noteq> None \<and>
         \<not> isTokenExpired (Date_now ex2) (authTokens r1)) \<and>
      fst (detectOAuthRequirement ex2 u w1) = Inr d \<and> d_requiresAuth d \<and> URL_valid ex2 u \<and>
      resource_metadata_outcome ex2 u
        (if truthy (d_resourceMetadataUrl d) then d_resourceMetadataUrl d else None) =
        Inr (Some rm) \<and>
      authorization_servers rm = Some (a # rest) \<and> as_metadata_outcome ex2 a = Inr (Some md) \<and>
      getAppUrl (process_env ex2) = Inr base"
  proof -
    let ?out = "startAuthorization_outcome ex2 a md ci (base @ ''/api/oauth/callback/'' @ sid)"
    note eq = check_GET_cached_run[of w1 sid r1 u ci ex2 d rm a rest md base]
    have eq': "(res2, w2) =
     (let pre = (if oauthStatus r1 = Some OAuthStatus_CONNECTED \<and> authTokens r1 \<noteq> None
                 then [Update sid [Set_oauthStatus OAuthStatus_EXPIRED]] else []) @
                [Fetch u, Update sid [Set_oauthStatus OAuthStatus_REQUIRED],
                 DiscoverProtectedResource u
                   (if truthy (d_resourceMetadataUrl d) then d_resourceMetadataUrl d else None),
                 DiscoverAuthorizationServer a, StartAuthorization a ci]
      in case ?out of
           Inl e \<Rightarrow>
             (Inr (required_response sid None
                     (Some (case e of JsError m \<Rightarrow> m | NonError \<Rightarrow> msg_generic_failure))),
              w1\<lparr>store := (store w1)(sid \<mapsto> r1\<lparr>oauthStatus := Some OAuthStatus_REQUIRED\<rparr>),
                 trace := trace w1 @ pre\<rparr>)
         | Inr (au, ver) \<Rightarrow>
             (Inr (required_response sid (Some au) None),
              w1\<lparr>store := (store w1)(sid \<mapsto> r1\<lparr>oauthStatus := Some OAuthStatus_REQUIRED,
                                                 codeVerifier := Some ver\<rparr>),
                 trace := trace w1 @ pre @ [Update sid [Set_codeVerifier (Some ver)]]\<rparr>))"
      using eq p run2 by simp
    show ?thesis
    proof (cases ?out)
      case (Inl e)
      then show ?thesis using eq' by (simp add: Let_def)
    next
      case (Inr x)
      obtain au ver where x: "x = (au, ver)" by (cases x)
      show ?thesis using eq' Inr x p by (simp add: Let_def)
    qed
  qed
  show "(fetch_outcome ex2 = fetch_outcome ex \<and>
      isTokenExpired (Date_now ex2) (stored_tokens sid w) =
        isTokenExpired (Date_now ex) (stored_tokens sid w) \<longrightarrow>
        (\<exists>b1 b2. res1 = Inr b1 \<and> res2 = Inr b2 \<and>
           r_oauthStatus (body b2) = r_oauthStatus (body b1))) \<and>
     (\<forall>c. cached_client sid w1 = Some c \<longrightarrow>
        cached_client sid w2 = Some c \<and> prefix (trace w1) (trace w2) \<and>
        (\<forall>ev \<in> set (drop (length (trace w1)) (trace w2)).
           (\<forall>a. ev \<noteq> RegisterClient a) \<and>
           (\<forall>c'. ev \<noteq> Update sid [Set_clientInfo c']) \<and>
           (\<forall>a c'. ev = StartAuthorization a c' \<longrightarrow> c' = c))) \<and>
     (store w1 sid = Some r1 \<and> type r1 = ''http'' \<and> url r1 = Some u \<and> clientInfo r1 = Some ci \<and>
      \<not> (oauthStatus r1 = Some OAuthStatus_CONNECTED \<and> authTokens r1 \<noteq> None \<and>
         \<not> isTokenExpired (Date_now ex2) (authTokens r1)) \<and>
      fst (detectOAuthRequirement ex2 u w1) = Inr d \<and> d_requiresAuth d \<and> URL_valid ex2 u \<and>
      resource_metadata_outcome ex2 u
        (if truthy (d_resourceMetadataUrl d) then d_resourceMetadataUrl d else None) =
        Inr (Some rm) \<and>
      authorization_servers rm = Some (a # rest) \<and> as_metadata_outcome ex2 a = Inr (Some md) \<and>
      getAppUrl (process_env ex2) = Inr base \<longrightarrow>
        StartAuthorization a ci \<in> set (drop (length (trace w1)) (trace w2)) \<and>
        (\<forall>au ver.
           startAuthorization_outcome ex2 a md ci (base @ ''/api/oauth/callback/'' @ sid) =
             Inr (au, ver) \<longrightarrow>
           res2 = Inr (required_response sid (Some au) None) \<and>
           (\<exists>r2. store w2 sid = Some r2 \<and> clientInfo r2 = Some ci \<and> codeVerifier r2 = Some ver)))"
    using A B C by blast
qed

theorem check_GET_idempotent_witness:
  "cached_client ''s1'' (snd (check_GET example_externals ''s1'' example_world)) = Some example_client \<and>
   (\<exists>b1 b2.
      fst (check_GET example_externals ''s1'' example_world) = Inr b1 \<and>
      fst (check_GET example_externals ''s1'' (snd (check_GET example_externals ''s1'' example_world))) =
        Inr b2 \<and>
      r_oauthStatus (body b2) = r_oauthStatus (body b1)) \<and>
   RegisterClient ''https://as.example'' \<in>
     set (trace (snd (check_GET example_externals ''s1'' example_world))) \<and>
   RegisterClient ''https://as.example'' \<notin>
     set (drop (length (trace (snd (check_GET example_externals ''s1'' example_world))))
            (trace (snd (check_GET example_externals ''s1''
               (snd (check_GET example_externals ''s1'' example_world)))))) \<and>
   StartAuthorization ''https://as.example'' example_client \<in>
     set (drop (length (trace (snd (check_GET example_externals ''s1'' example_world))))
            (trace (snd (check_GET example_externals ''s1''
               (snd (check_GET example_externals ''s1'' example_world)))))) \<and>
   fst (check_GET example_externals ''s1'' (snd (check_GET example_externals ''s1'' example_world))) =
     Inr (required_response ''s1'' (Some ''https://as.example/authorize?c=1'') None)"
proof -
  let ?w1 = "snd (check_GET example_externals ''s1'' example_world)"
  let ?c2 = "check_GET example_externals ''s1'' ?w1"
  let ?r1 = "example_server\<lparr>clientInfo := Some example_client,
                            codeVerifier := Some ''verifier-1'',
                            oauthStatus := Some ''REQUIRED''\<rparr>"
  let ?d = "\<lparr>d_requiresAuth = True, d_resourceMetadataUrl = Some ''https://mcp.example/meta'',
             d_error = None\<rparr>"
  let ?rm = "\<lparr>authorization_servers = Some [''https://as.example'']\<rparr>"
  have c: "cached_client ''s1'' ?w1 = Some example_client"
    by (simp add: first_check cached_client_def)
  have reg: "RegisterClient ''https://as.example'' \<in> set (trace ?w1)"
    by (simp add: first_check)
  have h: "check_GET example_externals ''s1'' example_world =
             (fst (check_GET example_externals ''s1'' example_world), ?w1) \<and>
           check_GET example_externals ''s1'' ?w1 = (fst ?c2, snd ?c2)"
    by simp
  have same: "fetch_outcome example_externals = fetch_outcome example_externals \<and>
      isTokenExpired (Date_now example_externals) (stored_tokens ''s1'' example_world) =
        isTokenExpired (Date_now example_externals) (stored_tokens ''s1'' example_world)"
    by simp
  have p: "store ?w1 ''s1'' = Some ?r1 \<and> type ?r1 = ''http'' \<and>
      url ?r1 = Some ''https://mcp.example/mcp'' \<and> clientInfo ?r1 = Some example_client \<and>
      \<not> (oauthStatus ?r1 = Some OAuthStatus_CONNECTED \<and> authTokens ?r1 \<noteq> None \<and>
         \<not> isTokenExpired (Date_now example_externals) (authTokens ?r1)) \<and>
      fst (detectOAuthRequirement example_externals ''https://mcp.example/mcp'' ?w1) = Inr ?d \<and>
      d_requiresAuth ?d \<and> URL_valid example_externals ''https://mcp.example/mcp'' \<and>
      resource_metadata_outcome example_externals ''https://mcp.example/mcp''
        (if truthy (d_resourceMetadataUrl ?d) then d_resourceMetadataUrl ?d else None) =
        Inr (Some ?rm) \<and>
      authorization_servers ?rm = Some (''https://as.example'' # []) \<and>
      as_metadata_outcome example_externals ''https://as.example'' = Inr (Some example_metadata) \<and>
      getAppUrl (process_env example_externals) = Inr ''https://app.example''"
    by (simp add: first_check detect_run example_classify)
      (simp add: example_externals_def example_server_def example_classify getAppUrl_def
        truthy_def OAuthStatus_CONNECTED_def)
  have out: "startAuthorization_outcome example_externals ''https://as.example'' example_metadata
      example_client (''https://app.example'' @ ''/api/oauth/callback/'' @ ''s1'') =
      Inr (''https://as.example/authorize?c=1'', ''verifier-1'')"
    by (simp add: example_externals_def)
  note t = check_GET_idempotent[of example_externals "''s1''" example_world
      "fst (check_GET example_externals ''s1'' example_world)" ?w1 example_externals
      "fst ?c2" "snd ?c2" ?r1 "''https://mcp.example/mcp''" example_client ?d ?rm
      "''https://as.example''" "[]" example_metadata "''https://app.example''", rule_format, OF h]
  from t same have A: "\<exists>b1 b2.
      fst (check_GET example_externals ''s1'' example_world) = Inr b1 \<and>
      fst ?c2 = Inr b2 \<and> r_oauthStatus (body b2) = r_oauthStatus (body b1)"
    by blast
  from t have "\<forall>c. cached_client ''s1'' ?w1 = Some c \<longrightarrow>
        cached_client ''s1'' (snd ?c2) = Some c \<and> prefix (trace ?w1) (trace (snd ?c2)) \<and>
        (\<forall>ev \<in> set (drop (length (trace ?w1)) (trace (snd ?c2))).
           (\<forall>a. ev \<noteq> RegisterClient a) \<and>
           (\<forall>c'. ev \<noteq> Update ''s1'' [Set_clientInfo c']) \<and>
           (\<forall>a c'. ev = StartAuthorization a c' \<longrightarrow> c' = c))"
    by blast
  from this[rule_format, OF c]
  have B: "RegisterClient ''https://as.example'' \<notin> set (drop (length (trace ?w1)) (trace (snd ?c2)))"
    by blast
  from t p have "StartAuthorization ''https://as.example'' example_client \<in>
        set (drop (length (trace ?w1)) (trace (snd ?c2))) \<and>
        (\<forall>au ver.
           startAuthorization_outcome example_externals ''https://as.example'' example_metadata
             example_client (''https://app.example'' @ ''/api/oauth/callback/'' @ ''s1'') =
             Inr (au, ver) \<longrightarrow>
           fst ?c2 = Inr (required_response ''s1'' (Some au) None) \<and>
           (\<exists>r2. store (snd ?c2) ''s1'' = Some r2 \<and> clientInfo r2 = Some example_client \<and>
                 codeVerifier r2 = Some ver))"
    by blast
  then have C: "StartAuthorization ''https://as.example'' example_client \<in>
        set (drop (length (trace ?w1)) (trace (snd ?c2)))"
    and D: "fst ?c2 = Inr (required_response ''s1'' (Some ''https://as.example/authorize?c=1'') None)"
    using out by blast+
  show ?thesis using c A reg B C D by (intro conjI)
qed

section \<open>The callback route\<close>







section \<open>A missing base URL\<close>

text \<open>
  C2, as stated, fails for the check route: in production with the base URL unset it
  probes the server and fetches both metadata documents, and then answers normally,
  with the misconfiguration text in the error field.
\<close>

theorem misconfiguration_check_counterexample:
  "\<not> truthy (NEXT_PUBLIC_APP_URL (process_env unconfigured_externals)) \<and>
   NODE_ENV (process_env unconfigured_externals) = Some ''production'' \<and>
   fst (check_GET unconfigured_externals ''s1'' example_world) =
     Inr (required_response ''s1'' None (Some misconfiguration_message)) \<and>
   trace (snd (check_GET unconfigured_externals ''s1'' example_world)) =
     [Fetch ''https://mcp.example/mcp'',
      Update ''s1'' [Set_oauthStatus ''REQUIRED''],
      DiscoverProtectedResource ''https://mcp.example/mcp'' (Some ''https://mcp.example/meta''),
      DiscoverAuthorizationServer ''https://as.example''] \<and>
   is_network (Fetch ''https://mcp.example/mcp'')"
  by (simp add: unconfigured_check) (simp add: unconfigured_externals_def truthy_def)

text \<open>
  C2, amended. In production with the base URL unset, the callback route throws the
  misconfiguration error at once: no record is read or written and no call is made.
  The check route still answers with a response; it may probe and discover, but it
  never registers a client and never starts an authorization.
\<close>

theorem misconfiguration_halts:
  "\<not> truthy (NEXT_PUBLIC_APP_URL (process_env ex)) \<and>
   NODE_ENV (process_env ex) \<noteq> Some ''development'' \<longrightarrow>
     callback_GET ex sid q w = (Inl (JsError misconfiguration_message), w) \<and>
     (\<exists>resp. fst (check_GET ex sid w) = Inr resp) \<and>
     prefix (trace w) (trace (snd (check_GET ex sid w))) \<and>
     (\<forall>ev \<in> set (drop (length (trace w)) (trace (snd (check_GET ex sid w)))).
        (\<forall>a. ev \<noteq> RegisterClient a) \<and> (\<forall>a c. ev \<noteq> StartAuthorization a c))"
proof (intro impI)
  assume h: "\<not> truthy (NEXT_PUBLIC_APP_URL (process_env ex)) \<and>
    NODE_ENV (process_env ex) \<noteq> Some ''development''"
  then have g: "getAppUrl (process_env ex) = Inl (JsError misconfiguration_message)"
    by (simp add: getAppUrl_def)
  have cb: "callback_GET ex sid q w = (Inl (JsError misconfiguration_message), w)"
    using g by (simp add: callback_GET_def callback_GET_on_def io_bind_def io_lift_def)
  obtain res w' where run: "check_GET ex sid w = (res, w')" by (cases "check_GET ex sid w")
  have r: "\<exists>resp. res = Inr resp" using check_GET_status[OF run] by blast
  have ext: "extends (check_event ex sid (cached_client sid w)) w w'"
    using check_GET_frame[OF run] by simp
  have "\<And>ev. check_event ex sid (cached_client sid w) ev \<Longrightarrow>
      (\<forall>a. ev \<noteq> RegisterClient a) \<and> (\<forall>a c. ev \<noteq> StartAuthorization a c)"
    using g by auto
  then have "prefix (trace w) (trace w') \<and>
     (\<forall>ev \<in> set (drop (length (trace w)) (trace w')).
        (\<forall>a. ev \<noteq> RegisterClient a) \<and> (\<forall>a c. ev \<noteq> StartAuthorization a c))"
    using extends_new_events[OF ext] by blast
  then show "callback_GET ex sid q w = (Inl (JsError misconfiguration_message), w) \<and>
     (\<exists>resp. fst (check_GET ex sid w) = Inr resp) \<and>
     prefix (trace w) (trace (snd (check_GET ex sid w))) \<and>
     (\<forall>ev \<in> set (drop (length (trace w)) (trace (snd (check_GET ex sid w)))).
        (\<forall>a. ev \<noteq> RegisterClient a) \<and> (\<forall>a c. ev \<noteq> StartAuthorization a c))"
    using cb r run by simp
qed

theorem misconfiguration_halts_witness:
  "\<not> truthy (NEXT_PUBLIC_APP_URL (process_env unconfigured_externals)) \<and>
   NODE_ENV (process_env unconfigured_externals) \<noteq> Some ''development'' \<and>
   callback_GET unconfigured_externals ''s1''
       \<lparr>q_code = Some ''code-1'', q_error = None, q_error_description = None\<rparr> pending_world =
     (Inl (JsError misconfiguration_message), pending_world) \<and>
   (\<exists>resp. fst (check_GET unconfigured_externals ''s1'' pending_world) = Inr resp)"
proof -
  have h: "\<not> truthy (NEXT_PUBLIC_APP_URL (process_env unconfigured_externals)) \<and>
    NODE_ENV (process_env unconfigured_externals) \<noteq> Some ''development''"
    by (simp add: unconfigured_externals_def truthy_def)
  from misconfiguration_halts[of unconfigured_externals "''s1''"
      "\<lparr>q_code = Some ''code-1'', q_error = None, q_error_description = None\<rparr>" pending_world,
      rule_format, OF h] h
  show ?thesis by blast
qed

section \<open>Status values\<close>

text \<open>
  C8. Starting from a store in which every status is one of the five values, the check
  route, the callback route, \<open>saveTokens\<close> and \<open>updateServerOAuthStatus\<close> (called with a
  value of the type) leave such a store; and every status that either route writes is
  one of the five values.
\<close>

theorem oauthStatus_enum:
  "(statuses_ok w \<longrightarrow>
      statuses_ok (snd (check_GET ex sid w)) \<and>
      statuses_ok (snd (callback_GET ex sid q w)) \<and>
      statuses_ok (snd (provider_saveTokens p tks w)) \<and>
      (s \<in> OAuthStatus_values \<longrightarrow> statuses_ok (snd (updateServerOAuthStatus sid s w)))) \<and>
   list_all status_write_ok (new_events w (snd (check_GET ex sid w))) \<and>
   list_all status_write_ok (new_events w (snd (callback_GET ex sid q w)))"
proof -
  have "statuses_ok (snd (provider_saveTokens p tks w))" if "statuses_ok w"
    unfolding provider_saveTokens_def
    by (rule update_status_statuses[OF that, of OAuthStatus_CONNECTED]) simp_all
  moreover have "statuses_ok (snd (updateServerOAuthStatus sid s w))"
    if "statuses_ok w" "s \<in> OAuthStatus_values"
    unfolding updateServerOAuthStatus_def
    by (rule update_status_statuses[OF that]) simp
  ultimately show ?thesis
    using check_GET_statuses callback_GET_statuses check_GET_writes callback_GET_writes
    by blast
qed

theorem oauthStatus_enum_witness:
  "statuses_ok example_world \<and> OAuthStatus_EXPIRED \<in> OAuthStatus_values \<and>
   statuses_ok (snd (check_GET example_externals ''s1'' example_world)) \<and>
   statuses_ok (snd (callback_GET example_externals ''s1''
      \<lparr>q_code = Some ''code-1'', q_error = None, q_error_description = None\<rparr> example_world)) \<and>
   statuses_ok (snd (provider_saveTokens \<lparr>serverId = ''s1'', serverName = ''Docs''\<rparr> example_tokens
      example_world)) \<and>
   statuses_ok (snd (updateServerOAuthStatus ''s1'' OAuthStatus_EXPIRED example_world))"
proof -
  have ok: "statuses_ok example_world"
    by (simp add: statuses_ok_def example_world_def example_server_def OAuthStatus_values_def
        OAuthStatus_UNKNOWN_def)
  have v: "OAuthStatus_EXPIRED \<in> OAuthStatus_values" by simp
  from oauthStatus_enum[of example_world example_externals "''s1''"
      "\<lparr>q_code = Some ''code-1'', q_error = None, q_error_description = None\<rparr>"
      "\<lparr>serverId = ''s1'', serverName = ''Docs''\<rparr>" example_tokens OAuthStatus_EXPIRED]
  show ?thesis using ok v by blast
qed


end
